theory Spec2Isabelle
  imports Main "HOL-Library.Sublist"
begin

section \<open>Strings\<close>

text \<open>
  Server messages, table names and column names are JavaScript strings. They are modelled
  as \<^typ>\<open>string\<close>, one \<^typ>\<open>char\<close> per UTF-16 code unit, which covers the code units
  U+0000 to U+00FF. Every literal the classifiers search for is ASCII.
\<close>

definition toLowerChar :: "char \<Rightarrow> char" where
  \<comment> \<open>\<open>String.prototype.toLowerCase\<close> on one code unit below U+0100: \<open>A\<close>-\<open>Z\<close> and the
      Latin-1 capitals U+00C0-U+00DE (the multiplication sign U+00D7 apart) move up by 32.\<close>
  "toLowerChar c =
     (let n = (of_char c :: nat)
      in if (65 \<le> n \<and> n \<le> 90) \<or> (192 \<le> n \<and> n \<le> 222 \<and> n \<noteq> 215)
         then char_of (n + 32) else c)"

definition toLowerCase :: "string \<Rightarrow> string" where
  "toLowerCase s = map toLowerChar s"

fun str_includes :: "string \<Rightarrow> string \<Rightarrow> bool" where
  \<comment> \<open>\<open>s.includes(needle)\<close>: the needle starts at some position of \<open>s\<close>.\<close>
  "str_includes [] needle = (needle = [])"
| "str_includes (c # cs) needle = (prefix needle (c # cs) \<or> str_includes cs needle)"

record pg_error =
  message :: string
  details :: string

section \<open>Error classifiers of the radar page (src/app/(main)/radar/page.tsx)\<close>

definition isMissingColumnError :: "string \<Rightarrow> bool" where
  "isMissingColumnError m =
     (let lower = toLowerCase m
      in str_includes lower ''42703'' \<or>
         str_includes lower ''does not exist'' \<or>
         (str_includes lower ''could not find'' \<and> str_includes lower ''column''))"

definition isMissingRelationError :: "string \<Rightarrow> bool" where
  "isMissingRelationError m =
     (let lower = toLowerCase m
      in str_includes lower ''42p01'' \<or>
         (str_includes lower ''relation'' \<and> str_includes lower ''does not exist'') \<or>
         (str_includes lower ''table'' \<and> str_includes lower ''does not exist'') \<or>
         str_includes lower ''could not find the table'' \<or>
         (str_includes lower ''schema cache'' \<and>
            (str_includes lower ''table'' \<or> str_includes lower ''relation'')))"

definition isDuplicateError :: "string \<Rightarrow> bool" where
  "isDuplicateError m =
     (let lower = toLowerCase m
      in str_includes lower ''23505'' \<or> str_includes lower ''duplicate key'')"

definition isPermissionError :: "string \<Rightarrow> bool" where
  "isPermissionError m =
     (let lower = toLowerCase m
      in str_includes lower ''42501'' \<or>
         str_includes lower ''permission denied'' \<or>
         str_includes lower ''row-level security'')"

definition isFunctionMissingError :: "string \<Rightarrow> bool" where
  "isFunctionMissingError m =
     (let lower = toLowerCase m
      in str_includes lower ''could not find the function'' \<or>
         str_includes lower ''does not exist'')"

definition isNotAuthenticatedError :: "string \<Rightarrow> bool" where
  "isNotAuthenticatedError m = str_includes (toLowerCase m) ''not authenticated''"

definition isAmbiguousReferenceError :: "string \<Rightarrow> bool" where
  "isAmbiguousReferenceError m =
     (let lower = toLowerCase m
      in str_includes lower ''42702'' \<or> str_includes lower ''is ambiguous'')"

definition shouldFallbackToFinishedStatus :: "string \<Rightarrow> bool" where
  "shouldFallbackToFinishedStatus m =
     (let lower = toLowerCase m
      in str_includes lower ''archived'' \<and>
         (str_includes lower ''invalid input value'' \<or>
          str_includes lower ''enum'' \<or>
          str_includes lower ''check constraint''))"

section \<open>Error classifiers of the smoke scripts\<close>

text \<open>
  The two scripts (scripts/smoke-radar-invite-two-users.mjs and the check-in smoke script)
  share these definitions word for word. They classify the error object, not its message:
  \<open>normalizeError\<close> joins message and details. \<open>details\<close> is \<open>''''\<close> when the server sent
  none (\<open>error.details || ''\<close>).
\<close>

definition normalizeError :: "pg_error \<Rightarrow> string" where
  "normalizeError e = toLowerCase (message e @ '' '' @ details e)"

definition isMissingColumnError_script :: "pg_error \<Rightarrow> bool" where
  "isMissingColumnError_script e =
     (let msg = normalizeError e
      in str_includes msg ''42703'' \<or>
         (str_includes msg ''column'' \<and> str_includes msg ''does not exist'') \<or>
         (str_includes msg ''could not find'' \<and> str_includes msg ''column''))"

definition isMissingRelationError_script :: "pg_error \<Rightarrow> bool" where
  "isMissingRelationError_script e =
     (let msg = normalizeError e
      in str_includes msg ''42p01'' \<or>
         (str_includes msg ''relation'' \<and> str_includes msg ''does not exist'') \<or>
         (str_includes msg ''table'' \<and> str_includes msg ''does not exist'') \<or>
         str_includes msg ''could not find the table'')"

definition isPermissionError_script :: "pg_error \<Rightarrow> bool" where
  "isPermissionError_script e =
     (let msg = normalizeError e
      in str_includes msg ''42501'' \<or>
         str_includes msg ''permission denied'' \<or>
         str_includes msg ''row-level security'' \<or>
         str_includes msg ''not authenticated'')"

definition isEnumConstraintError :: "pg_error \<Rightarrow> bool" where
  "isEnumConstraintError e =
     (let msg = normalizeError e
      in str_includes msg ''invalid input value for enum'' \<or>
         str_includes msg ''check constraint'')"

section \<open>Containment, as the specification words it\<close>

definition containsCI :: "string \<Rightarrow> string \<Rightarrow> bool" where
  \<comment> \<open>"the message contains the signal, case-insensitively": some stretch of the message
      is the signal once lowered.\<close>
  "containsCI m sig = (\<exists>pre mid post. m = pre @ mid @ post \<and> toLowerCase mid = sig)"

definition permissionSignals_page :: "string list" where
  \<comment> \<open>the signals the radar page's \<open>isPermissionError\<close> is specified by, once amended\<close>
  "permissionSignals_page = [''42501'', ''permission denied'', ''row-level security'']"

definition permissionSignals :: "string list" where
  \<comment> \<open>the four signals of the specification's error table\<close>
  "permissionSignals = permissionSignals_page @ [''not authenticated'']"

section \<open>Reading the column name out of a message\<close>

text \<open>
  \<open>extractMissingColumnName\<close> tries three regular expressions in turn, each with the \<open>i\<close>
  flag and each returning its first (leftmost) match:
  \<^verbatim>\<open>/column\s+"([^"]+)"/i\<close>, \<^verbatim>\<open>/column\s+'([^']+)'/i\<close> and
  \<^verbatim>\<open>/could not find the ['"]([^'"]+)['"] column/i\<close>.
  None of them needs backtracking: after the greedy \<open>\s+\<close> the next code unit must be
  a quote, and after the greedy class of non-quotes the next code unit must be a quote
  again; a shorter match of either run is followed by a code unit of the run itself.
\<close>

definition dquote :: char where
  "dquote = CHR 0x22"

definition squote :: char where
  "squote = CHR 0x27"

definition isWhiteSpace :: "char \<Rightarrow> bool" where
  \<comment> \<open>the class \<open>\s\<close> below U+0100: TAB, LF, VT, FF, CR, space and the no-break space\<close>
  "isWhiteSpace c = ((of_char c :: nat) \<in> {9, 10, 11, 12, 13, 32, 160})"

definition asciiUpper :: "char \<Rightarrow> char" where
  \<comment> \<open>the canonical form under the \<open>i\<close> flag, as far as an ASCII pattern can tell: \<open>a\<close>-\<open>z\<close>
      become capitals; a code unit from U+0080 on never canonicalises to an ASCII one\<close>
  "asciiUpper c =
     (let n = (of_char c :: nat) in if 97 \<le> n \<and> n \<le> 122 then char_of (n - 32) else c)"

fun ciPrefix :: "string \<Rightarrow> string \<Rightarrow> string option" where
  \<comment> \<open>\<open>ciPrefix pat s\<close>: what is left of \<open>s\<close> after the literal \<open>pat\<close>, letter case ignored\<close>
  "ciPrefix [] s = Some s"
| "ciPrefix (p # ps) [] = None"
| "ciPrefix (p # ps) (c # cs) =
     (if asciiUpper p = asciiUpper c then ciPrefix ps cs else None)"

fun firstMatch :: "(string \<Rightarrow> 'a option) \<Rightarrow> string \<Rightarrow> 'a option" where
  \<comment> \<open>the match at the leftmost position where there is one\<close>
  "firstMatch m [] = m []"
| "firstMatch m (c # cs) =
     (case m (c # cs) of Some r \<Rightarrow> Some r | None \<Rightarrow> firstMatch m cs)"

definition matchColumnQuoted :: "char \<Rightarrow> string \<Rightarrow> string option" where
  \<comment> \<open>\<open>column\s+Q([^Q]+)Q\<close> anchored at the start of \<open>s\<close>, for the quote \<open>Q\<close>\<close>
  "matchColumnQuoted q s =
     (case ciPrefix ''column'' s of
        None \<Rightarrow> None
      | Some r1 \<Rightarrow>
          if takeWhile isWhiteSpace r1 = [] then None
          else (case dropWhile isWhiteSpace r1 of
                  [] \<Rightarrow> None
                | c # r2 \<Rightarrow>
                    if c \<noteq> q then None
                    else (let name = takeWhile (\<lambda>x. x \<noteq> q) r2
                          in if name = [] \<or> dropWhile (\<lambda>x. x \<noteq> q) r2 = [] then None
                             else Some name)))"

definition isQuote :: "char \<Rightarrow> bool" where
  "isQuote c = (c = squote \<or> c = dquote)"

definition matchSchemaCache :: "string \<Rightarrow> string option" where
  \<comment> \<open>\<open>could not find the ['"]([^'"]+)['"] column\<close> anchored at the start of \<open>s\<close>\<close>
  "matchSchemaCache s =
     (case ciPrefix ''could not find the '' s of
        None \<Rightarrow> None
      | Some r1 \<Rightarrow>
          (case r1 of
             [] \<Rightarrow> None
           | c # r2 \<Rightarrow>
               if \<not> isQuote c then None
               else (let name = takeWhile (\<lambda>x. \<not> isQuote x) r2
                     in if name = [] then None
                        else (case dropWhile (\<lambda>x. \<not> isQuote x) r2 of
                                [] \<Rightarrow> None
                              | c' # r3 \<Rightarrow>
                                  (case ciPrefix '' column'' r3 of
                                     None \<Rightarrow> None
                                   | Some r4 \<Rightarrow> Some name)))))"

definition extractMissingColumnName :: "string \<Rightarrow> string option" where
  \<comment> \<open>\<open>None\<close> is the source's \<open>null\<close>; a captured name is never empty, so it is truthy\<close>
  "extractMissingColumnName m =
     (case firstMatch (matchColumnQuoted dquote) m of
        Some withQuote \<Rightarrow> Some withQuote
      | None \<Rightarrow>
          (case firstMatch (matchColumnQuoted squote) m of
             Some withSingleQuote \<Rightarrow> Some withSingleQuote
           | None \<Rightarrow> firstMatch matchSchemaCache m))"

section \<open>JavaScript values and objects\<close>

datatype jsval =
    Undefined
  | Null
  | Bool bool
  | Num int
  | Str string
  | Arr "jsval list"
  | Obj "(string \<times> jsval) list"

text \<open>
  \<open>Num\<close> holds the integers (row ids, counts); fractions do not occur in the code modelled.
  A payload (\<open>Record<string, unknown>\<close>) is the list of its own properties, in insertion
  order, one entry per key.
\<close>

type_synonym payload = "(string \<times> jsval) list"

definition truthy :: "jsval \<Rightarrow> bool" where
  "truthy v =
     (case v of
        Undefined \<Rightarrow> False
      | Null \<Rightarrow> False
      | Bool b \<Rightarrow> b
      | Num n \<Rightarrow> n \<noteq> 0
      | Str s \<Rightarrow> s \<noteq> []
      | Arr xs \<Rightarrow> True
      | Obj kvs \<Rightarrow> True)"

definition nullish :: "jsval \<Rightarrow> jsval" where
  \<comment> \<open>\<open>v ?? null\<close>\<close>
  "nullish v = (if v = Undefined then Null else v)"

definition orNull :: "jsval \<Rightarrow> jsval" where
  \<comment> \<open>\<open>v || null\<close>\<close>
  "orNull v = (if truthy v then v else Null)"

definition js_get :: "payload \<Rightarrow> string \<Rightarrow> jsval" where
  \<comment> \<open>\<open>obj.key\<close> for a key that \<open>Object.prototype\<close> does not define\<close>
  "js_get obj k = (case map_of obj k of Some v \<Rightarrow> v | None \<Rightarrow> Undefined)"

definition field :: "jsval \<Rightarrow> string \<Rightarrow> jsval" where
  \<comment> \<open>\<open>row?.key\<close> on a row that is an object or \<open>null\<close>\<close>
  "field row k = (case row of Obj kvs \<Rightarrow> js_get kvs k | _ \<Rightarrow> Undefined)"

fun js_set :: "string \<Rightarrow> jsval \<Rightarrow> payload \<Rightarrow> payload" where
  \<comment> \<open>\<open>obj[key] = v\<close>: an own property keeps its place, a new one goes last\<close>
  "js_set k v [] = [(k, v)]"
| "js_set k v ((k', v') # kvs) =
     (if k' = k then (k, v) # kvs else (k', v') # js_set k v kvs)"

definition js_delete :: "string \<Rightarrow> payload \<Rightarrow> payload" where
  \<comment> \<open>\<open>delete obj[key]\<close> removes the own property \<open>key\<close>, if there is one\<close>
  "js_delete k obj = filter (\<lambda>kv. fst kv \<noteq> k) obj"

definition hasOwn :: "string \<Rightarrow> payload \<Rightarrow> bool" where
  "hasOwn k obj = (k \<in> fst ` set obj)"

definition objectPrototypeKeys :: "string list" where
  \<comment> \<open>the properties every plain object inherits from \<open>Object.prototype\<close>\<close>
  "objectPrototypeKeys =
     [''constructor'', ''hasOwnProperty'', ''isPrototypeOf'', ''propertyIsEnumerable'',
      ''toLocaleString'', ''toString'', ''valueOf'', ''__proto__'',
      ''__defineGetter__'', ''__defineSetter__'', ''__lookupGetter__'', ''__lookupSetter__'']"

definition js_in :: "string \<Rightarrow> payload \<Rightarrow> bool" where
  \<comment> \<open>\<open>key in obj\<close> for a plain object (\<open>{ ...payload }\<close>, an object literal): the operator
      looks the key up along the prototype chain, so it also holds for inherited names\<close>
  "js_in k obj = (hasOwn k obj \<or> k \<in> set objectPrototypeKeys)"

fun showNat :: "nat \<Rightarrow> string" where
  "showNat n = (if n < 10 then [char_of (48 + n)] else showNat (n div 10) @ [char_of (48 + n mod 10)])"

definition showInt :: "int \<Rightarrow> string" where
  "showInt i = (if i < 0 then CHR ''-'' # showNat (nat (- i)) else showNat (nat i))"

fun joinComma :: "string list \<Rightarrow> string" where
  "joinComma [] = []"
| "joinComma [s] = s"
| "joinComma (s # t # ss) = s @ '','' @ joinComma (t # ss)"

fun toStringJs :: "jsval \<Rightarrow> string" where
  \<comment> \<open>\<open>v.toString()\<close> for a value that has the method; \<open>null\<close> and \<open>undefined\<close> are listed
      for the elements of an array, which \<open>join\<close> renders as empty\<close>
  "toStringJs (Str s) = s"
| "toStringJs (Num n) = showInt n"
| "toStringJs (Bool b) = (if b then ''true'' else ''false'')"
| "toStringJs (Arr xs) = joinComma (map toStringJs xs)"
| "toStringJs (Obj kvs) = ''[object Object]''"
| "toStringJs Null = []"
| "toStringJs Undefined = []"

definition optToString :: "jsval \<Rightarrow> string option" where
  \<comment> \<open>\<open>v?.toString()\<close>: \<open>None\<close> is \<open>undefined\<close>\<close>
  "optToString v = (if v = Undefined \<or> v = Null then None else Some (toStringJs v))"

definition toUpperChar :: "char \<Rightarrow> string" where
  \<comment> \<open>\<open>toUpperCase\<close> on one code unit below U+0100. The sharp s becomes \<open>SS\<close>. The capitals
      of U+00B5 and U+00FF lie beyond U+00FF; the two are left as they are, which no
      comparison with an ASCII literal can tell apart.\<close>
  "toUpperChar c =
     (let n = (of_char c :: nat)
      in if (97 \<le> n \<and> n \<le> 122) \<or> (224 \<le> n \<and> n \<le> 254 \<and> n \<noteq> 247)
         then [char_of (n - 32)]
         else if n = 223 then ''SS'' else [c])"

definition toUpperCase :: "string \<Rightarrow> string" where
  "toUpperCase s = concat (map toUpperChar s)"

section \<open>The remote store, as the client sees it\<close>

text \<open>
  Every call of the query builder is a request; the store answers with \<open>{ data, error }\<close>.
  The store is not part of the repository: it is a parameter, any function from the
  exchanges so far and the request to the answer. Each function of the client takes the
  list of exchanges so far and returns it extended by the calls it awaited, in order.
\<close>

datatype request =
    Insert string payload "string option"
    \<comment> \<open>\<open>from(table).insert(row)\<close>, with \<open>.select(columns).maybeSingle()\<close> when given\<close>
  | Upsert string payload string
    \<comment> \<open>\<open>from(table).upsert(row, { onConflict })\<close>\<close>
  | Update string payload payload
    \<comment> \<open>\<open>from(table).update(row)\<close> followed by one \<open>.eq(column, value)\<close> per filter\<close>
  | Select string string payload
    \<comment> \<open>\<open>from(table).select(columns)\<close>, the \<open>.eq\<close> filters, \<open>.maybeSingle()\<close>\<close>
  | Rpc string payload
    \<comment> \<open>\<open>rpc(name, args)\<close>\<close>

record response =
  data :: jsval
  error :: "pg_error option"

type_synonym exchange = "request \<times> response"

type_synonym backend = "exchange list \<Rightarrow> request \<Rightarrow> response"

definition call :: "backend \<Rightarrow> request \<Rightarrow> exchange list \<Rightarrow> response \<times> exchange list" where
  "call be req tr = (let result = be tr req in (result, tr @ [(req, result)]))"

section \<open>The retry loop\<close>

text \<open>
  All retry loops of the shim have one shape,
  \<^verbatim>\<open>for (let attempt = 0; attempt < bound; attempt += 1) {
    const result = await <request built from working>;
    <body: return, throw, or change working and continue>
  }
  <after the loop>\<close>
  The body of each loop is a function of the working copy and the answer that either
  returns (or throws) or continues with the changed working copy.
\<close>

datatype 'r step = Return 'r | Continue payload

function retryLoop ::
  "nat \<Rightarrow> (payload \<Rightarrow> request) \<Rightarrow> (payload \<Rightarrow> response \<Rightarrow> 'r step) \<Rightarrow> 'r \<Rightarrow>
   backend \<Rightarrow> nat \<Rightarrow> payload \<Rightarrow> exchange list \<Rightarrow> 'r \<times> exchange list" where
  "retryLoop bound issue body exhausted be attempt working tr =
     (if attempt < bound then
        (case call be (issue working) tr of
           (result, tr') \<Rightarrow>
             (case body working result of
                Return r \<Rightarrow> (r, tr')
              | Continue working' \<Rightarrow>
                  retryLoop bound issue body exhausted be (attempt + 1) working' tr'))
      else (exhausted, tr))"
  by pat_completeness auto
termination
  by (relation "measure (\<lambda>(bound, issue, body, exhausted, be, attempt, working, tr).
        bound - attempt)") auto

declare retryLoop.simps [simp del]

text \<open>
  \<open>chain issue body w ext w'\<close>: the exchanges \<open>ext\<close> are consecutive attempts, the first
  issued from the working copy \<open>w\<close>, whose bodies all continued; \<open>w'\<close> is the working copy
  they leave.
\<close>

inductive chain ::
  "(payload \<Rightarrow> request) \<Rightarrow> (payload \<Rightarrow> response \<Rightarrow> 'r step) \<Rightarrow>
   payload \<Rightarrow> exchange list \<Rightarrow> payload \<Rightarrow> bool"
  for issue :: "payload \<Rightarrow> request" and body :: "payload \<Rightarrow> response \<Rightarrow> 'r step" where
  chain_Nil: "chain issue body w [] w"
| chain_Cons: "body w result = Continue w1 \<Longrightarrow> chain issue body w1 ext w' \<Longrightarrow>
     chain issue body w ((issue w, result) # ext) w'"

section \<open>insertWithColumnFallback, radar page (src/app/(main)/radar/page.tsx)\<close>

record insert_result =
  res_data :: jsval
  res_error :: "pg_error option"
  duplicate :: bool

definition insertBody :: "payload \<Rightarrow> response \<Rightarrow> insert_result step" where
  "insertBody working result =
     (case error result of
        None \<Rightarrow>
          Return \<lparr>res_data = nullish (data result), res_error = None, duplicate = False\<rparr>
      | Some e \<Rightarrow>
          if isDuplicateError (message e) then
            Return \<lparr>res_data = nullish (data result), res_error = None, duplicate = True\<rparr>
          else
            (case extractMissingColumnName (message e) of
               Some missingColumn \<Rightarrow>
                 if js_in missingColumn working \<and> isMissingColumnError (message e)
                 then Continue (js_delete missingColumn working)
                 else Return \<lparr>res_data = Null, res_error = Some e, duplicate = False\<rparr>
             | None \<Rightarrow> Return \<lparr>res_data = Null, res_error = Some e, duplicate = False\<rparr>))"

definition insertExhausted :: "string \<Rightarrow> insert_result" where
  "insertExhausted table =
     \<lparr>res_data = Null,
      res_error = Some \<lparr>message = ''Gagal insert ke '' @ table @ '' setelah beberapa percobaan'',
                        details = []\<rparr>,
      duplicate = False\<rparr>"

definition insertRequest :: "string \<Rightarrow> string option \<Rightarrow> payload \<Rightarrow> request" where
  \<comment> \<open>\<open>options?.select\<close> is tested for truth: an empty column list counts as none\<close>
  "insertRequest table select working =
     Insert table working (if select = Some [] then None else select)"

definition insertWithColumnFallback ::
  "backend \<Rightarrow> string \<Rightarrow> payload \<Rightarrow> string option \<Rightarrow> exchange list \<Rightarrow>
   insert_result \<times> exchange list" where
  "insertWithColumnFallback be table payload select tr =
     retryLoop 8 (insertRequest table select) insertBody (insertExhausted table)
       be 0 payload tr"

section \<open>insertWithColumnFallback, smoke scripts\<close>

text \<open>
  The results of the scripts are object literals with some of the properties \<open>ok\<close>,
  \<open>data\<close>, \<open>table\<close>, \<open>missing\<close>, \<open>permission\<close>, \<open>skipped\<close>, \<open>error\<close>. A flag that a literal
  leaves out is \<open>undefined\<close>, read as false.
\<close>

record script_result =
  ok :: bool
  sr_data :: jsval
  sr_table :: "string option"
  missing :: bool
  permission :: bool
  skipped :: bool
  sr_error :: "pg_error option"

definition scriptFailure :: "string option \<Rightarrow> pg_error \<Rightarrow> script_result" where
  \<comment> \<open>\<open>{ ok: false, table, error }\<close>\<close>
  "scriptFailure table e =
     \<lparr>ok = False, sr_data = Undefined, sr_table = table, missing = False,
      permission = False, skipped = False, sr_error = Some e\<rparr>"

definition insertBody_script :: "string \<Rightarrow> payload \<Rightarrow> response \<Rightarrow> script_result step" where
  "insertBody_script table working result =
     (case error result of
        None \<Rightarrow>
          Return \<lparr>ok = True, sr_data = orNull (data result), sr_table = Some table,
                  missing = False, permission = False, skipped = False, sr_error = None\<rparr>
      | Some e \<Rightarrow>
          if isMissingRelationError_script e then
            Return ((scriptFailure (Some table) e)\<lparr>missing := True\<rparr>)
          else if isPermissionError_script e then
            Return ((scriptFailure (Some table) e)\<lparr>permission := True\<rparr>)
          else if isMissingColumnError_script e then
            (case extractMissingColumnName (message e) of
               Some missingColumn \<Rightarrow>
                 if js_in missingColumn working
                 then Continue (js_delete missingColumn working)
                 else Return (scriptFailure (Some table) e)
             | None \<Rightarrow> Return (scriptFailure (Some table) e))
          else Return (scriptFailure (Some table) e))"

definition insertExhausted_script :: "string \<Rightarrow> script_result" where
  "insertExhausted_script table =
     scriptFailure (Some table)
       \<lparr>message = ''Gagal insert '' @ table @ '' setelah beberapa percobaan.'', details = []\<rparr>"

definition insertLoop_script ::
  "nat \<Rightarrow> backend \<Rightarrow> string \<Rightarrow> payload \<Rightarrow> string \<Rightarrow> exchange list \<Rightarrow>
   script_result \<times> exchange list" where
  \<comment> \<open>the function the two scripts share, up to the bound of the loop\<close>
  "insertLoop_script bound be table payload selectColumns tr =
     retryLoop bound (\<lambda>working. Insert table working (Some selectColumns))
       (insertBody_script table) (insertExhausted_script table) be 0 payload tr"

definition insertWithColumnFallback_checkin ::
  "backend \<Rightarrow> string \<Rightarrow> payload \<Rightarrow> string \<Rightarrow> exchange list \<Rightarrow>
   script_result \<times> exchange list" where
  \<comment> \<open>the check-in smoke script: \<open>attempt < 10\<close>\<close>
  "insertWithColumnFallback_checkin = insertLoop_script 10"

definition insertWithColumnFallback_invite ::
  "backend \<Rightarrow> string \<Rightarrow> payload \<Rightarrow> string \<Rightarrow> exchange list \<Rightarrow>
   script_result \<times> exchange list" where
  \<comment> \<open>scripts/smoke-radar-invite-two-users.mjs: \<open>attempt < 12\<close>\<close>
  "insertWithColumnFallback_invite = insertLoop_script 12"

section \<open>What a call added to the exchanges\<close>

definition added :: "exchange list \<Rightarrow> 'r \<times> exchange list \<Rightarrow> exchange list" where
  \<comment> \<open>the exchanges of the call that returned \<open>run\<close>, started after the exchanges \<open>tr\<close>\<close>
  "added tr run = drop (length tr) (snd run)"

definition requestBody :: "request \<Rightarrow> payload" where
  \<comment> \<open>the row a write request carries\<close>
  "requestBody req =
     (case req of
        Insert table row select \<Rightarrow> row
      | Upsert table row onConflict \<Rightarrow> row
      | Update table row filters \<Rightarrow> row
      | Select table columns filters \<Rightarrow> []
      | Rpc name args \<Rightarrow> [])"

definition requestTable :: "request \<Rightarrow> string" where
  \<comment> \<open>the table a request is addressed to; a procedure call has none\<close>
  "requestTable req =
     (case req of
        Insert table row select \<Rightarrow> table
      | Upsert table row onConflict \<Rightarrow> table
      | Update table row filters \<Rightarrow> table
      | Select table columns filters \<Rightarrow> table
      | Rpc name args \<Rightarrow> [])"




section \<open>Reported columns\<close>

definition reportedColumn :: "exchange \<Rightarrow> string option" where
  \<comment> \<open>the column name the answer of an attempt reports, if it failed and names one\<close>
  "reportedColumn x =
     (case error (snd x) of
        None \<Rightarrow> None
      | Some e \<Rightarrow> extractMissingColumnName (message e))"

definition reportedColumns :: "exchange list \<Rightarrow> string list" where
  "reportedColumns ext = List.map_filter reportedColumn ext"

definition without :: "payload \<Rightarrow> string set \<Rightarrow> payload" where
  \<comment> \<open>the payload minus the keys in \<open>S\<close>\<close>
  "without P S = filter (\<lambda>kv. fst kv \<notin> S) P"

definition namesPresentColumn :: "exchange \<Rightarrow> bool" where
  \<comment> \<open>radar page: if the attempt failed, it failed with a missing-column error whose
      extracted column name is a key of the request's row\<close>
  "namesPresentColumn x =
     (case error (snd x) of
        None \<Rightarrow> True
      | Some e \<Rightarrow>
          isMissingColumnError (message e) \<and>
          (case extractMissingColumnName (message e) of
             None \<Rightarrow> False
           | Some c \<Rightarrow> hasOwn c (requestBody (fst x))))"

definition namesPresentColumn_script :: "exchange \<Rightarrow> bool" where
  \<comment> \<open>the same with the scripts' classifier\<close>
  "namesPresentColumn_script x =
     (case error (snd x) of
        None \<Rightarrow> True
      | Some e \<Rightarrow>
          isMissingColumnError_script e \<and>
          (case extractMissingColumnName (message e) of
             None \<Rightarrow> False
           | Some c \<Rightarrow> hasOwn c (requestBody (fst x))))"

definition classifiedFirst :: "exchange \<Rightarrow> bool" where
  \<comment> \<open>radar page: the error is a duplicate-key error, which the loop tests for before it
      looks for a column\<close>
  "classifiedFirst x =
     (case error (snd x) of None \<Rightarrow> False | Some e \<Rightarrow> isDuplicateError (message e))"

definition classifiedFirst_script :: "exchange \<Rightarrow> bool" where
  \<comment> \<open>scripts: the error is a missing-relation or a permission error, which the loop tests
      for before it looks for a column\<close>
  "classifiedFirst_script x =
     (case error (snd x) of
        None \<Rightarrow> False
      | Some e \<Rightarrow> isMissingRelationError_script e \<or> isPermissionError_script e)"

section \<open>setCheckOutNow, radar page\<close>

definition archivePayload :: "string \<Rightarrow> payload" where
  \<comment> \<open>\<open>{ status: 'ARCHIVED', archived_at: nowIso, updated_at: nowIso }\<close>; \<open>nowIso\<close> is the
      clock's \<open>new Date().toISOString()\<close>\<close>
  "archivePayload nowIso =
     [(''status'', Str ''ARCHIVED''), (''archived_at'', Str nowIso),
      (''updated_at'', Str nowIso)]"

definition stripTarget :: "string \<Rightarrow> payload \<Rightarrow> string option" where
  \<comment> \<open>the column to strip, when the page's test
      \<open>missingColumn && missingColumn in working && isMissingColumnError(message)\<close> holds\<close>
  "stripTarget m working =
     (case extractMissingColumnName m of
        None \<Rightarrow> None
      | Some missingColumn \<Rightarrow>
          if js_in missingColumn working \<and> isMissingColumnError m
          then Some missingColumn else None)"

definition checkOutBody :: "payload \<Rightarrow> response \<Rightarrow> (string + unit) step" where
  \<comment> \<open>\<open>Inl\<close> is a thrown \<open>Error\<close> with that message\<close>
  "checkOutBody workingPayload result =
     (case error result of
        None \<Rightarrow> Return (Inr ())
      | Some e \<Rightarrow>
          (case stripTarget (message e) workingPayload of
             Some missingColumn \<Rightarrow> Continue (js_delete missingColumn workingPayload)
           | None \<Rightarrow>
               if js_get workingPayload ''status'' = Str ''ARCHIVED'' \<and>
                  shouldFallbackToFinishedStatus (message e)
               then Continue (js_set ''status'' (Str ''FINISHED'') workingPayload)
               else if isPermissionError (message e)
               then Return (Inl ''Tidak punya izin check-out pada data check-in ini.'')
               else Return (Inl (message e))))"

definition setCheckOutNow ::
  "backend \<Rightarrow> string \<Rightarrow> string \<Rightarrow> string \<Rightarrow> string \<Rightarrow> exchange list \<Rightarrow>
   (string + unit) \<times> exchange list" where
  \<comment> \<open>\<open>params.userId\<close>, \<open>params.active.id\<close>, \<open>params.active.table\<close> and the clock\<close>
  "setCheckOutNow be userId activeId activeTable nowIso tr =
     retryLoop 8
       (\<lambda>workingPayload. Update activeTable workingPayload
          [(''id'', Str activeId), (''user_id'', Str userId)])
       checkOutBody (Inl ''Gagal check-out sekarang.'') be 0 (archivePayload nowIso) tr"

section \<open>archiveCheckInsByUser, check-in smoke script\<close>

definition archiveBody :: "payload \<Rightarrow> response \<Rightarrow> script_result step" where
  "archiveBody working result =
     (case error result of
        None \<Rightarrow>
          Return \<lparr>ok = True, sr_data = Undefined, sr_table = None, missing = False,
                  permission = False, skipped = False, sr_error = None\<rparr>
      | Some e \<Rightarrow>
          if isMissingRelationError_script e then
            Return \<lparr>ok = True, sr_data = Undefined, sr_table = None, missing = False,
                    permission = False, skipped = True, sr_error = None\<rparr>
          else if isPermissionError_script e then
            Return ((scriptFailure None e)\<lparr>permission := True\<rparr>)
          else if js_get working ''status'' = Str ''ARCHIVED'' \<and> isEnumConstraintError e then
            Continue (js_set ''status'' (Str ''FINISHED'') working)
          else if isMissingColumnError_script e then
            (case extractMissingColumnName (message e) of
               Some missingColumn \<Rightarrow>
                 if js_in missingColumn working
                 then Continue (js_delete missingColumn working)
                 else Return (scriptFailure None e)
             | None \<Rightarrow> Return (scriptFailure None e))
          else Return (scriptFailure None e))"

definition archiveCheckInsByUser ::
  "backend \<Rightarrow> string \<Rightarrow> string \<Rightarrow> string \<Rightarrow> exchange list \<Rightarrow>
   script_result \<times> exchange list" where
  "archiveCheckInsByUser be table userId nowIso tr =
     retryLoop 10
       (\<lambda>working. Update table working
          [(''user_id'', Str userId), (''status'', Str ''ACTIVE'')])
       archiveBody
       (scriptFailure None \<lparr>message = ''Gagal mengarsipkan '' @ table @ ''.'', details = []\<rparr>)
       be 0 (archivePayload nowIso) tr"

section \<open>The status the requests of a call carry\<close>

definition statusOf :: "exchange \<Rightarrow> jsval" where
  "statusOf x = js_get (requestBody (fst x)) ''status''"

fun substitutionCount :: "jsval list \<Rightarrow> nat" where
  \<comment> \<open>how often a status \<open>ARCHIVED\<close> is followed by \<open>FINISHED\<close> in the next request\<close>
  "substitutionCount (a # b # rest) =
     (if a = Str ''ARCHIVED'' \<and> b = Str ''FINISHED'' then 1 else 0) +
     substitutionCount (b # rest)"
| "substitutionCount [a] = 0"
| "substitutionCount [] = 0"

definition enumRejected :: "exchange \<Rightarrow> bool" where
  \<comment> \<open>radar page: the answer is an error on which the loop's enum test holds, and for which
      it strips no column first\<close>
  "enumRejected x =
     (case error (snd x) of
        None \<Rightarrow> False
      | Some e \<Rightarrow>
          stripTarget (message e) (requestBody (fst x)) = None \<and>
          shouldFallbackToFinishedStatus (message e))"

definition enumRejected_script :: "exchange \<Rightarrow> bool" where
  \<comment> \<open>script: the answer is an enum or check-constraint error that is neither a
      missing-relation nor a permission error\<close>
  "enumRejected_script x =
     (case error (snd x) of
        None \<Rightarrow> False
      | Some e \<Rightarrow>
          \<not> isMissingRelationError_script e \<and> \<not> isPermissionError_script e \<and>
          isEnumConstraintError e)"

definition rejectedForGood :: "exchange \<Rightarrow> bool" where
  \<comment> \<open>radar page: the answer is an error that names no column to strip\<close>
  "rejectedForGood x =
     (case error (snd x) of
        None \<Rightarrow> False
      | Some e \<Rightarrow> stripTarget (message e) (requestBody (fst x)) = None)"

definition rejectedForGood_script :: "exchange \<Rightarrow> bool" where
  \<comment> \<open>script: the answer is an error that is neither a missing-relation nor a permission
      error and that names no column to strip\<close>
  "rejectedForGood_script x =
     (case error (snd x) of
        None \<Rightarrow> False
      | Some e \<Rightarrow>
          \<not> isMissingRelationError_script e \<and> \<not> isPermissionError_script e \<and>
          \<not> (isMissingColumnError_script e \<and>
             (case extractMissingColumnName (message e) of
                None \<Rightarrow> False
              | Some c \<Rightarrow> js_in c (requestBody (fst x)))))"

section \<open>createRadarEvent, radar page\<close>

record createParams =
  cr_userId :: string
  cr_churchId :: string
  cr_churchName :: "string option"
  cr_title :: string
  cr_description :: string
  cr_startsAtIso :: string
  cr_maxParticipants :: "int option"
  cr_allowMemberInvite :: "bool option"
  cr_requireHostApproval :: "bool option"
  cr_massScheduleId :: "string option"

text \<open>
  The fields are the properties of \<open>params\<close> (prefixed, since a selector is a constant);
  \<open>None\<close> is a property left out. The defaults of the destructuring are
  \<open>allowMemberInvite = true\<close> and \<open>requireHostApproval = false\<close>.
\<close>

definition allowMemberInvite :: "createParams \<Rightarrow> bool" where
  "allowMemberInvite params =
     (case cr_allowMemberInvite params of None \<Rightarrow> True | Some b \<Rightarrow> b)"

definition requireHostApproval :: "createParams \<Rightarrow> bool" where
  "requireHostApproval params =
     (case cr_requireHostApproval params of None \<Rightarrow> False | Some b \<Rightarrow> b)"

definition optNum :: "int option \<Rightarrow> jsval" where
  "optNum n = (case n of None \<Rightarrow> Undefined | Some k \<Rightarrow> Num k)"

definition scheduleKeys :: "string option \<Rightarrow> string \<Rightarrow> string \<Rightarrow> payload" where
  \<comment> \<open>\<open>if (massScheduleId) { p.first = massScheduleId; p.second = massScheduleId; }\<close>\<close>
  "scheduleKeys massScheduleId first second =
     (case massScheduleId of
        None \<Rightarrow> []
      | Some s \<Rightarrow> if s = [] then [] else [(first, Str s), (second, Str s)])"

definition legacyPayload :: "createParams \<Rightarrow> payload" where
  "legacyPayload params =
     [(''title'', Str (cr_title params)),
      (''description'', Str (cr_description params)),
      (''church_id'', Str (cr_churchId params)),
      (''church_name'',
         Str (case cr_churchName params of
                None \<Rightarrow> ''Gereja''
              | Some n \<Rightarrow> if n = [] then ''Gereja'' else n)),
      (''event_time'', Str (cr_startsAtIso params)),
      (''creator_id'', Str (cr_userId params)),
      (''visibility'', Str ''PUBLIC''),
      (''status'', Str ''PUBLISHED''),
      (''allow_member_invite'', Bool (allowMemberInvite params)),
      (''require_host_approval'', Bool (requireHostApproval params)),
      (''max_participants'', optNum (cr_maxParticipants params))]
     @ scheduleKeys (cr_massScheduleId params) ''schedule_id'' ''mass_schedule_id''"

definition v2Payload :: "createParams \<Rightarrow> string \<Rightarrow> payload" where
  \<comment> \<open>\<open>endsAtIso\<close> is the start plus ninety minutes, as the \<open>Date\<close> library prints it\<close>
  "v2Payload params endsAtIso =
     [(''title'', Str (cr_title params)),
      (''description'', Str (cr_description params)),
      (''church_id'', Str (cr_churchId params)),
      (''creator_id'', Str (cr_userId params)),
      (''event_starts_at_utc'', Str (cr_startsAtIso params)),
      (''event_ends_at_utc'', Str endsAtIso),
      (''status'', Str ''PUBLISHED''),
      (''allow_member_invite'', Bool (allowMemberInvite params)),
      (''require_host_approval'', Bool (requireHostApproval params)),
      (''join_mode'', Str (if requireHostApproval params then ''APPROVAL'' else ''OPEN'')),
      (''max_participants'', optNum (cr_maxParticipants params))]
     @ scheduleKeys (cr_massScheduleId params) ''mass_schedule_id'' ''schedule_id''"

definition hostRow :: "string \<Rightarrow> string \<Rightarrow> payload" where
  "hostRow radarId userId =
     [(''radar_id'', Str radarId), (''user_id'', Str userId), (''role'', Str ''HOST''),
      (''status'', Str ''JOINED'')]"

definition created :: "insert_result \<Rightarrow> bool" where
  \<comment> \<open>\<open>!r.error && r.data?.id\<close>: the insert returned no error and a row with an id\<close>
  "created r = (res_error r = None \<and> truthy (field (res_data r) ''id''))"

definition createdId :: "insert_result \<Rightarrow> string" where
  \<comment> \<open>\<open>r.data.id.toString()\<close>, read when \<open>created r\<close>\<close>
  "createdId r = toStringJs (field (res_data r) ''id'')"

definition errorMessage :: "insert_result \<Rightarrow> string" where
  \<comment> \<open>\<open>r.error?.message\<close>, with the empty string for \<open>undefined\<close>: both are falsy\<close>
  "errorMessage r = (case res_error r of None \<Rightarrow> [] | Some e \<Rightarrow> message e)"

definition orElse :: "string \<Rightarrow> string \<Rightarrow> string" where
  \<comment> \<open>\<open>a || b\<close> on strings\<close>
  "orElse a b = (if a = [] then b else a)"

definition createRadarEvent ::
  "backend \<Rightarrow> (string \<Rightarrow> string option) \<Rightarrow> createParams \<Rightarrow> exchange list \<Rightarrow>
   (string + string) \<times> exchange list" where
  \<comment> \<open>\<open>plus90\<close> is the \<open>Date\<close> library: the ISO string ninety minutes after the given one,
      \<open>None\<close> where \<open>toISOString\<close> throws its \<open>RangeError\<close> on an invalid date.
      \<open>Inl\<close> is a thrown error, \<open>Inr\<close> the returned id.\<close>
  "createRadarEvent be plus90 params tr =
     (case insertWithColumnFallback be ''radar_events'' (legacyPayload params) (Some ''id'') tr of
        (legacyCreated, tr1) \<Rightarrow>
          if created legacyCreated then
            (case insertWithColumnFallback be ''radar_participants''
                    (hostRow (createdId legacyCreated) (cr_userId params)) None tr1 of
               (hostInsert, tr2) \<Rightarrow> (Inr (createdId legacyCreated), tr2))
          else
            (case plus90 (cr_startsAtIso params) of
               None \<Rightarrow> (Inl ''Invalid time value'', tr1)
             | Some endsAtIso \<Rightarrow>
                 (case insertWithColumnFallback be ''radar_events_v2''
                         (v2Payload params endsAtIso) (Some ''id'') tr1 of
                    (v2Insert, tr2) \<Rightarrow>
                      if created v2Insert then
                        (case insertWithColumnFallback be ''radar_participants_v2''
                                (hostRow (createdId v2Insert) (cr_userId params)) None tr2 of
                           (hostInsert, tr3) \<Rightarrow> (Inr (createdId v2Insert), tr3))
                      else
                        (Inl (orElse (errorMessage legacyCreated)
                                (orElse (errorMessage v2Insert) ''Gagal membuat radar'')),
                         tr2))))"

section \<open>joinRadarEvent, radar page\<close>

datatype RadarSource = Legacy | V2

datatype RadarMembershipStatus = JOINED | PENDING

definition membershipString :: "RadarMembershipStatus \<Rightarrow> string" where
  "membershipString s = (case s of JOINED \<Rightarrow> ''JOINED'' | PENDING \<Rightarrow> ''PENDING'')"

definition firstRow :: "jsval \<Rightarrow> jsval" where
  \<comment> \<open>\<open>Array.isArray(data) ? data[0] : data\<close>\<close>
  "firstRow d = (case d of Arr xs \<Rightarrow> (case xs of [] \<Rightarrow> Undefined | x # rest \<Rightarrow> x) | _ \<Rightarrow> d)"

definition rpcStatus :: "jsval \<Rightarrow> RadarMembershipStatus" where
  \<comment> \<open>\<open>raw?.status?.toString().toUpperCase() === 'PENDING' ? 'PENDING' : 'JOINED'\<close>\<close>
  "rpcStatus d =
     (case optToString (field (firstRow d) ''status'') of
        None \<Rightarrow> JOINED
      | Some s \<Rightarrow> if toUpperCase s = ''PENDING'' then PENDING else JOINED)"

definition joinRpcRequest :: "RadarSource \<Rightarrow> string \<Rightarrow> string \<Rightarrow> request" where
  "joinRpcRequest source radarId userId =
     (case source of
        V2 \<Rightarrow> Rpc ''radar_v2_join_event''
                [(''p_radar_id'', Str radarId), (''p_force_join'', Bool False)]
      | Legacy \<Rightarrow> Rpc ''join_radar_event''
                [(''p_radar_id'', Str radarId), (''p_user_id'', Str userId)])"

definition rpcFallsBack :: "string \<Rightarrow> bool" where
  \<comment> \<open>the error of the procedure call leads to the direct insert: the function is missing,
      not permitted or not authenticated, or (with a warning) ambiguous; any other error
      is thrown\<close>
  "rpcFallsBack m =
     (if \<not> isFunctionMissingError m \<and> \<not> isPermissionError m \<and> \<not> isNotAuthenticatedError m
      then isAmbiguousReferenceError m
      else True)"

definition eventTableOf :: "RadarSource \<Rightarrow> string" where
  "eventTableOf source = (case source of V2 \<Rightarrow> ''radar_events_v2'' | Legacy \<Rightarrow> ''radar_events'')"

definition primaryTable :: "RadarSource \<Rightarrow> string" where
  "primaryTable source =
     (case source of V2 \<Rightarrow> ''radar_participants_v2'' | Legacy \<Rightarrow> ''radar_participants'')"

definition secondaryTable :: "RadarSource \<Rightarrow> string" where
  "secondaryTable source =
     (case source of V2 \<Rightarrow> ''radar_participants'' | Legacy \<Rightarrow> ''radar_participants_v2'')"

definition readEventPolicy ::
  "backend \<Rightarrow> RadarSource \<Rightarrow> string \<Rightarrow> exchange list \<Rightarrow> response \<times> exchange list" where
  \<comment> \<open>the read of \<open>require_host_approval\<close>, repeated without the column when the store
      reports a missing column; the response is \<open>{ data: eventPolicy, error: eventPolicyError }\<close>\<close>
  "readEventPolicy be source radarId tr =
     (case call be (Select (eventTableOf source) ''id, require_host_approval''
                      [(''id'', Str radarId)]) tr of
        (policyWithApproval, tr1) \<Rightarrow>
          (case error policyWithApproval of
             None \<Rightarrow> (policyWithApproval, tr1)
           | Some e \<Rightarrow>
               if isMissingColumnError (message e)
               then call be (Select (eventTableOf source) ''id'' [(''id'', Str radarId)]) tr1
               else (policyWithApproval, tr1)))"

definition fallbackMembershipStatus :: "jsval \<Rightarrow> RadarMembershipStatus" where
  \<comment> \<open>\<open>eventPolicy?.require_host_approval === true ? 'PENDING' : 'JOINED'\<close>\<close>
  "fallbackMembershipStatus eventPolicy =
     (if field eventPolicy ''require_host_approval'' = Bool True then PENDING else JOINED)"

definition memberRow :: "string \<Rightarrow> string \<Rightarrow> RadarMembershipStatus \<Rightarrow> payload" where
  "memberRow radarId userId status =
     [(''radar_id'', Str radarId), (''user_id'', Str userId), (''role'', Str ''MEMBER''),
      (''status'', Str (membershipString status))]"

fun joinInserts ::
  "backend \<Rightarrow> string list \<Rightarrow> payload \<Rightarrow> RadarMembershipStatus \<Rightarrow> exchange list \<Rightarrow>
   (string + RadarMembershipStatus) \<times> exchange list" where
  \<comment> \<open>\<open>for (const table of [primaryTable, secondaryTable]) { ... }\<close> and the throw after it\<close>
  "joinInserts be [] row status tr =
     (Inl ''Gagal bergabung ke radar. Cek kebijakan akses radar di Supabase.'', tr)"
| "joinInserts be (table # tables) row status tr =
     (case insertWithColumnFallback be table row None tr of
        (result, tr1) \<Rightarrow>
          if res_error result = None then (Inr status, tr1)
          else joinInserts be tables row status tr1)"

definition joinDirect ::
  "backend \<Rightarrow> string \<Rightarrow> string \<Rightarrow> RadarSource \<Rightarrow> exchange list \<Rightarrow>
   (string + RadarMembershipStatus) \<times> exchange list" where
  \<comment> \<open>the direct-insert fallback: everything after the procedure call\<close>
  "joinDirect be radarId userId source tr =
     (case readEventPolicy be source radarId tr of
        (policy, tr1) \<Rightarrow>
          (case error policy of
             Some e \<Rightarrow>
               if \<not> isPermissionError (message e) then (Inl (message e), tr1)
               else joinInserts be [primaryTable source, secondaryTable source]
                      (memberRow radarId userId (fallbackMembershipStatus (data policy)))
                      (fallbackMembershipStatus (data policy)) tr1
           | None \<Rightarrow>
               joinInserts be [primaryTable source, secondaryTable source]
                 (memberRow radarId userId (fallbackMembershipStatus (data policy)))
                 (fallbackMembershipStatus (data policy)) tr1))"

definition joinRadarEvent ::
  "backend \<Rightarrow> string \<Rightarrow> string \<Rightarrow> RadarSource \<Rightarrow> exchange list \<Rightarrow>
   (string + RadarMembershipStatus) \<times> exchange list" where
  "joinRadarEvent be radarId userId source tr =
     (case call be (joinRpcRequest source radarId userId) tr of
        (rpc, tr1) \<Rightarrow>
          (case error rpc of
             None \<Rightarrow> (Inr (rpcStatus (data rpc)), tr1)
           | Some e \<Rightarrow>
               if rpcFallsBack (message e) then joinDirect be radarId userId source tr1
               else (Inl (message e), tr1)))"

section \<open>Example stores and rows\<close>

text \<open>Concrete stores and rows on which the theorems below are run.\<close>

definition participantRow :: payload where
  \<comment> \<open>the row \<open>joinRadarEvent\<close> inserts for a member\<close>
  "participantRow =
     [(''radar_id'', Str ''r1''), (''user_id'', Str ''u1''), (''role'', Str ''MEMBER''),
      (''status'', Str ''JOINED'')]"

definition duplicateKeyError :: pg_error where
  "duplicateKeyError =
     \<lparr>message = ''duplicate key value violates unique constraint'', details = []\<rparr>"

definition duplicateBackend :: backend where
  \<comment> \<open>a store in which the row is already there\<close>
  "duplicateBackend tr req = \<lparr>data = Null, error = Some duplicateKeyError\<rparr>"

definition missingColumnError :: "string \<Rightarrow> pg_error" where
  \<comment> \<open>PostgreSQL's message for an unknown column\<close>
  "missingColumnError c =
     \<lparr>message = ''column '' @ [dquote] @ c @ [dquote] @ '' does not exist'', details = []\<rparr>"



definition relationColumnError :: pg_error where
  \<comment> \<open>PostgreSQL's message for an insert into a column the table does not have\<close>
  "relationColumnError =
     \<lparr>message = ''column '' @ [dquote] @ ''church_name'' @ [dquote] @ '' of relation '' @
                  [dquote] @ ''radar_events'' @ [dquote] @ '' does not exist'',
      details = []\<rparr>"

definition churchNameMissing :: backend where
  \<comment> \<open>a store whose \<open>radar_events\<close> has no column \<open>church_name\<close>: it rejects a row that
      has the key and accepts any other\<close>
  "churchNameMissing tr req =
     (if hasOwn ''church_name'' (requestBody req)
      then \<lparr>data = Null, error = Some relationColumnError\<rparr>
      else \<lparr>data = Obj [(''id'', Str ''r1'')], error = None\<rparr>)"

definition eventRow :: payload where
  "eventRow =
     [(''title'', Str ''Misa''), (''church_id'', Str ''c1''), (''church_name'', Str ''Gereja'')]"

definition schemaCacheColumnError :: pg_error where
  \<comment> \<open>PostgREST's message for a key of the row that is no column of the table\<close>
  "schemaCacheColumnError =
     \<lparr>message = ''Could not find the '' @ [squote] @ ''church_name'' @ [squote] @
                  '' column of '' @ [squote] @ ''radar_events'' @ [squote] @
                  '' in the schema cache'',
      details = []\<rparr>"

definition churchNameUnknown :: backend where
  \<comment> \<open>the same store behind PostgREST's schema cache\<close>
  "churchNameUnknown tr req =
     (if hasOwn ''church_name'' (requestBody req)
      then \<lparr>data = Null, error = Some schemaCacheColumnError\<rparr>
      else \<lparr>data = Obj [(''id'', Str ''r1'')], error = None\<rparr>)"

definition absentTableError :: pg_error where
  \<comment> \<open>PostgreSQL's message for a table that is not there\<close>
  "absentTableError =
     \<lparr>message = ''relation '' @ [dquote] @ ''public.radar_events'' @ [dquote] @
                  '' does not exist'',
      details = []\<rparr>"

definition absentTable :: backend where
  \<comment> \<open>a store without the table\<close>
  "absentTable tr req = \<lparr>data = Null, error = Some absentTableError\<rparr>"

definition inheritedNameError :: pg_error where
  \<comment> \<open>a missing-column message that names \<open>constructor\<close>\<close>
  "inheritedNameError = missingColumnError ''constructor''"

definition inheritedName :: backend where
  \<comment> \<open>a store that answers every request with that message\<close>
  "inheritedName tr req = \<lparr>data = Null, error = Some inheritedNameError\<rparr>"

definition enumError :: "jsval \<Rightarrow> pg_error" where
  \<comment> \<open>PostgreSQL's message for a value the enum of the column does not have\<close>
  "enumError v =
     \<lparr>message = ''invalid input value for enum checkin_status: '' @ [dquote] @
                  toStringJs v @ [dquote],
      details = []\<rparr>"

definition bothRejected :: backend where
  \<comment> \<open>a store whose status enum has neither \<open>ARCHIVED\<close> nor \<open>FINISHED\<close>\<close>
  "bothRejected tr req =
     \<lparr>data = Null, error = Some (enumError (js_get (requestBody req) ''status''))\<rparr>"

definition archivedRejected :: backend where
  \<comment> \<open>a store whose status enum has \<open>FINISHED\<close> but not \<open>ARCHIVED\<close>\<close>
  "archivedRejected tr req =
     (if js_get (requestBody req) ''status'' = Str ''ARCHIVED''
      then \<lparr>data = Null, error = Some (enumError (Str ''ARCHIVED''))\<rparr>
      else \<lparr>data = Null, error = None\<rparr>)"

definition exampleParams :: createParams where
  "exampleParams =
     \<lparr>cr_userId = ''u1'', cr_churchId = ''c1'', cr_churchName = Some ''Katedral'',
      cr_title = ''Misa'', cr_description = ''Misa pagi'',
      cr_startsAtIso = ''2026-02-19T10:00:00.000Z'', cr_maxParticipants = Some 10,
      cr_allowMemberInvite = None, cr_requireHostApproval = None,
      cr_massScheduleId = None\<rparr>"

definition examplePlus90 :: "string \<Rightarrow> string option" where
  "examplePlus90 s = Some ''2026-02-19T11:30:00.000Z''"

definition acceptsAll :: backend where
  \<comment> \<open>a store with both generations: every insert returns the new row's id\<close>
  "acceptsAll tr req = \<lparr>data = Obj [(''id'', Str ''r1'')], error = None\<rparr>"

definition legacyAbsent :: backend where
  \<comment> \<open>a store with the second generation only\<close>
  "legacyAbsent tr req =
     (if requestTable req = ''radar_events'' \<or> requestTable req = ''radar_participants''
      then \<lparr>data = Null, error = Some absentTableError\<rparr>
      else \<lparr>data = Obj [(''id'', Str ''r2'')], error = None\<rparr>)"

section \<open>Facts about the string primitives\<close>

lemma str_includes_iff: "str_includes s n \<longleftrightarrow> (\<exists>pre post. s = pre @ n @ post)"
proof (induction s)
  case Nil
  then show ?case by auto
next
  case (Cons c cs)
  show ?case
  proof
    assume "str_includes (c # cs) n"
    then consider "prefix n (c # cs)" | "str_includes cs n" by auto
    then show "\<exists>pre post. c # cs = pre @ n @ post"
    proof cases
      case 1
      then obtain post where "c # cs = n @ post" by (auto simp: prefix_def)
      then have "c # cs = [] @ n @ post" by simp
      then show ?thesis by blast
    next
      case 2
      with Cons.IH obtain pre post where "cs = pre @ n @ post" by blast
      then have "c # cs = (c # pre) @ n @ post" by simp
      then show ?thesis by blast
    qed
  next
    assume "\<exists>pre post. c # cs = pre @ n @ post"
    then obtain pre post where eq: "c # cs = pre @ n @ post" by blast
    show "str_includes (c # cs) n"
    proof (cases pre)
      case Nil
      with eq have "prefix n (c # cs)" by (simp add: prefix_def)
      then show ?thesis by simp
    next
      case (Cons p ps)
      with eq have "cs = ps @ n @ post" by simp
      with Cons.IH have "str_includes cs n" by blast
      then show ?thesis by simp
    qed
  qed
qed

lemma toLowerCase_append: "toLowerCase (a @ b) = toLowerCase a @ toLowerCase b"
  by (simp add: toLowerCase_def)

lemma map_eq_append3:
  "map f m = pre @ n @ post \<Longrightarrow>
   \<exists>a b c. m = a @ b @ c \<and> map f a = pre \<and> map f b = n \<and> map f c = post"
proof -
  assume "map f m = pre @ n @ post"
  then obtain a r where 1: "m = a @ r" "pre = map f a" "n @ post = map f r"
    unfolding map_eq_append_conv by blast
  from 1(3) obtain b c where 2: "r = b @ c" "n = map f b" "post = map f c"
    unfolding append_eq_map_conv by blast
  from 1 2 show ?thesis by blast
qed

lemma includes_lower_iff_containsCI:
  "str_includes (toLowerCase m) sig \<longleftrightarrow> containsCI m sig"
proof
  assume "str_includes (toLowerCase m) sig"
  then obtain pre post where "map toLowerChar m = pre @ sig @ post"
    unfolding str_includes_iff toLowerCase_def by blast
  from map_eq_append3 [OF this]
  obtain a b c where "m = a @ b @ c" "map toLowerChar b = sig"
    by blast
  then have "m = a @ b @ c \<and> toLowerCase b = sig"
    by (simp add: toLowerCase_def)
  then show "containsCI m sig"
    unfolding containsCI_def by blast
next
  assume "containsCI m sig"
  then obtain pre mid post where "m = pre @ mid @ post" "toLowerCase mid = sig"
    unfolding containsCI_def by blast
  then have "toLowerCase m = toLowerCase pre @ sig @ toLowerCase post"
    by (simp add: toLowerCase_append)
  then show "str_includes (toLowerCase m) sig"
    unfolding str_includes_iff by blast
qed

text \<open>
  The case mappings, bit by bit: a capital differs from its small letter in bit 5 only.
  These equations are what evaluation uses.
\<close>

lemma toLowerChar_code [code]:
  "toLowerChar (Char b0 b1 b2 b3 b4 b5 b6 b7) =
     (if b6 \<and> \<not> b5 \<and>
         (if b7 then \<not> (b4 \<and> b2 \<and> b1 \<and> b0)
          else (b0 \<or> b1 \<or> b2 \<or> b3 \<or> b4) \<and> \<not> (b4 \<and> b3 \<and> (b2 \<or> (b1 \<and> b0))))
      then Char b0 b1 b2 b3 b4 True b6 b7
      else Char b0 b1 b2 b3 b4 b5 b6 b7)"
  by (cases b0; cases b1; cases b2; cases b3; cases b4; cases b5; cases b6; cases b7;
      simp add: toLowerChar_def; code_simp)

lemma asciiUpper_code [code]:
  "asciiUpper (Char b0 b1 b2 b3 b4 b5 b6 b7) =
     (if \<not> b7 \<and> b6 \<and> b5 \<and> (b0 \<or> b1 \<or> b2 \<or> b3 \<or> b4) \<and>
         \<not> (b4 \<and> b3 \<and> (b2 \<or> (b1 \<and> b0)))
      then Char b0 b1 b2 b3 b4 False b6 b7
      else Char b0 b1 b2 b3 b4 b5 b6 b7)"
  by (cases b0; cases b1; cases b2; cases b3; cases b4; cases b5; cases b6; cases b7;
      simp add: asciiUpper_def; code_simp)

section \<open>Runs of the retry loop\<close>

lemma chain_snoc:
  assumes "chain issue body w ext w1" and "body w1 result = Continue w2"
  shows "chain issue body w (ext @ [(issue w1, result)]) w2"
  using assms
proof (induction rule: chain.induct)
  case (chain_Nil w)
  then show ?case
    using chain.chain_Cons [OF _ chain.chain_Nil] by fastforce
next
  case (chain_Cons w result w1 ext w')
  then show ?case by (simp add: chain.chain_Cons)
qed

lemma chain_member:
  assumes "chain issue body w ext w'" and "x \<in> set ext"
  shows "\<exists>wi wj. fst x = issue wi \<and> body wi (snd x) = Continue wj"
  using assms
proof (induction rule: chain.induct)
  case (chain_Nil w)
  then show ?case by simp
next
  case (chain_Cons w result w1 ext w')
  then show ?case by auto
qed

text \<open>
  Every call of the loop extends the list of exchanges by a run: attempts that continued,
  then either one attempt whose body returned, or none when the bound is reached.
\<close>

lemma retryLoop_run:
  assumes "retryLoop bound issue body exhausted be attempt working tr = (r, tr')"
  shows "\<exists>ext. tr' = tr @ ext \<and> length ext \<le> bound - attempt \<and>
     ((\<exists>pre wl result. ext = pre @ [(issue wl, result)] \<and> chain issue body working pre wl \<and>
         body wl result = Return r) \<or>
      (\<exists>w'. chain issue body working ext w' \<and> length ext = bound - attempt \<and>
         r = exhausted))"
  using assms
proof (induction bound issue body exhausted be attempt working tr arbitrary: r tr'
    rule: retryLoop.induct)
  case (1 bound issue body exhausted be attempt working tr)
  show ?case
  proof (cases "attempt < bound")
    case False
    with "1.prems" have "r = exhausted" "tr' = tr"
      by (simp_all add: retryLoop.simps)
    with False show ?thesis
      using chain.chain_Nil [of issue body working] by auto
  next
    case True
    define result where "result = be tr (issue working)"
    define tr1 where "tr1 = tr @ [(issue working, result)]"
    have c: "call be (issue working) tr = (result, tr1)"
      by (simp add: call_def Let_def result_def tr1_def)
    show ?thesis
    proof (cases "body working result")
      case (Return r0)
      with True c "1.prems" have "r = r0" "tr' = tr1"
        by (simp_all add: retryLoop.simps [of bound issue body exhausted be attempt working tr])
      with Return True show ?thesis
        using chain.chain_Nil [of issue body working]
        by (intro exI [of _ "[(issue working, result)]"]) (auto simp: tr1_def)
    next
      case (Continue w1)
      with True c "1.prems"
      have rec: "retryLoop bound issue body exhausted be (attempt + 1) w1 tr1 = (r, tr')"
        by (simp add: retryLoop.simps [of bound issue body exhausted be attempt working tr])
      from "1.IH" [OF True c [symmetric] Continue rec]
      obtain ext where ext: "tr' = tr1 @ ext" "length ext \<le> bound - (attempt + 1)"
        and alt: "(\<exists>pre wl result. ext = pre @ [(issue wl, result)] \<and>
              chain issue body w1 pre wl \<and> body wl result = Return r) \<or>
            (\<exists>w'. chain issue body w1 ext w' \<and> length ext = bound - (attempt + 1) \<and>
              r = exhausted)"
        by blast
      let ?ext = "(issue working, result) # ext"
      have 1: "tr' = tr @ ?ext" using ext by (simp add: tr1_def)
      have 2: "length ?ext \<le> bound - attempt" using ext True by simp
      from alt show ?thesis
      proof
        assume "\<exists>pre wl result. ext = pre @ [(issue wl, result)] \<and>
              chain issue body w1 pre wl \<and> body wl result = Return r"
        then obtain pre wl res where p: "ext = pre @ [(issue wl, res)]"
          "chain issue body w1 pre wl" "body wl res = Return r" by blast
        have "chain issue body working ((issue working, result) # pre) wl"
          using Continue p(2) by (rule chain.chain_Cons)
        moreover have "?ext = ((issue working, result) # pre) @ [(issue wl, res)]"
          using p(1) by simp
        ultimately show ?thesis using 1 2 p(3) by blast
      next
        assume "\<exists>w'. chain issue body w1 ext w' \<and> length ext = bound - (attempt + 1) \<and>
              r = exhausted"
        then obtain w' where p: "chain issue body w1 ext w'"
          "length ext = bound - (attempt + 1)" "r = exhausted" by blast
        have "chain issue body working ?ext w'"
          using Continue p(1) by (rule chain.chain_Cons)
        moreover have "length ?ext = bound - attempt" using p(2) True by simp
        ultimately show ?thesis using 1 2 p(3) by blast
      qed
    qed
  qed
qed

lemma retryLoop_cases [consumes 0, case_names returned ran_out]:
  fixes bound issue body exhausted be attempt working tr
  defines "R \<equiv> retryLoop bound issue body exhausted be attempt working tr"
  obtains
    (returned) pre wl result where
      "snd R = tr @ pre @ [(issue wl, result)]"
      "added tr R = pre @ [(issue wl, result)]"
      "chain issue body working pre wl"
      "body wl result = Return (fst R)"
      "length pre < bound - attempt"
  | (ran_out) ext w' where
      "snd R = tr @ ext"
      "added tr R = ext"
      "chain issue body working ext w'"
      "length ext = bound - attempt"
      "fst R = exhausted"
proof -
  have "retryLoop bound issue body exhausted be attempt working tr = (fst R, snd R)"
    by (simp add: R_def)
  from retryLoop_run [OF this]
  obtain ext where ext: "snd R = tr @ ext" "length ext \<le> bound - attempt"
    and alt: "(\<exists>pre wl result. ext = pre @ [(issue wl, result)] \<and>
          chain issue body working pre wl \<and> body wl result = Return (fst R)) \<or>
        (\<exists>w'. chain issue body working ext w' \<and> length ext = bound - attempt \<and>
          fst R = exhausted)"
    by blast
  have add: "added tr R = ext" by (simp add: added_def ext(1))
  from alt show thesis
  proof
    assume "\<exists>pre wl result. ext = pre @ [(issue wl, result)] \<and>
          chain issue body working pre wl \<and> body wl result = Return (fst R)"
    then obtain pre wl result where p: "ext = pre @ [(issue wl, result)]"
      "chain issue body working pre wl" "body wl result = Return (fst R)" by blast
    have "length pre < bound - attempt" using ext(2) p(1) by simp
    with p ext(1) add show thesis using returned by simp
  next
    assume "\<exists>w'. chain issue body working ext w' \<and> length ext = bound - attempt \<and>
          fst R = exhausted"
    then show thesis using ext(1) add ran_out by blast
  qed
qed

lemma added_length:
  "length (added tr (retryLoop bound issue body exhausted be attempt working tr))
     \<le> bound - attempt"
  by (cases rule: retryLoop_cases [of bound issue body exhausted be attempt working tr])
    simp_all

lemma snd_retryLoop:
  "snd (retryLoop bound issue body exhausted be attempt working tr) =
     tr @ added tr (retryLoop bound issue body exhausted be attempt working tr)"
  by (cases rule: retryLoop_cases [of bound issue body exhausted be attempt working tr])
    simp_all

lemma retryLoop_returns_at:
  assumes i: "i < length (added tr (retryLoop bound issue body exhausted be attempt working tr))"
    and ret: "\<And>w. body w
        (snd (added tr (retryLoop bound issue body exhausted be attempt working tr) ! i))
        = Return r"
  shows "Suc i = length (added tr (retryLoop bound issue body exhausted be attempt working tr))
      \<and> fst (retryLoop bound issue body exhausted be attempt working tr) = r"
proof (cases rule: retryLoop_cases [of bound issue body exhausted be attempt working tr])
  case (returned pre wl result)
  show ?thesis
  proof (cases "i < length pre")
    case True
    then have "pre ! i \<in> set pre" by simp
    from chain_member [OF returned(3) this] obtain wi wj where
      "body wi (snd (pre ! i)) = Continue wj" by blast
    moreover have "body wi (snd (pre ! i)) = Return r"
      using ret [of wi] True by (simp add: returned(2) nth_append)
    ultimately show ?thesis by simp
  next
    case False
    with i have il: "i = length pre" by (simp add: returned(2))
    have "body wl result = Return r"
      using ret [of wl] by (simp add: returned(2) il)
    with returned(4) show ?thesis by (simp add: returned(2) il)
  qed
next
  case (ran_out ext w')
  from i have "ext ! i \<in> set ext" by (simp add: ran_out(2))
  from chain_member [OF ran_out(3) this] obtain wi wj where
    "body wi (snd (ext ! i)) = Continue wj" by blast
  moreover have "body wi (snd (ext ! i)) = Return r"
    using ret [of wi] by (simp add: ran_out(2))
  ultimately show ?thesis by simp
qed

lemma chain_nth:
  assumes "chain issue body w ext w'" and "i < length ext"
  shows "\<exists>wi wj. fst (ext ! i) = issue wi \<and> body wi (snd (ext ! i)) = Continue wj \<and>
     (if Suc i < length ext then fst (ext ! Suc i) = issue wj else w' = wj)"
  using assms
proof (induction arbitrary: i rule: chain.induct)
  case (chain_Nil w)
  then show ?case by simp
next
  case (chain_Cons w result w1 ext w')
  show ?case
  proof (cases i)
    case 0
    show ?thesis
    proof (cases ext)
      case Nil
      with chain_Cons.hyps(2) have "w' = w1" by (auto elim: chain.cases)
      with 0 Nil chain_Cons.hyps(1) show ?thesis by auto
    next
      case (Cons x xs)
      with chain_Cons.hyps(2) have "fst x = issue w1" by (auto elim: chain.cases)
      with 0 Cons chain_Cons.hyps(1) show ?thesis by auto
    qed
  next
    case (Suc j)
    with chain_Cons.prems have "j < length ext" by simp
    from chain_Cons.IH [OF this] obtain wi wj where
      "fst (ext ! j) = issue wi" "body wi (snd (ext ! j)) = Continue wj"
      "if Suc j < length ext then fst (ext ! Suc j) = issue wj else w' = wj" by blast
    then have "fst (((issue w, result) # ext) ! i) = issue wi \<and>
        body wi (snd (((issue w, result) # ext) ! i)) = Continue wj \<and>
        (if Suc i < length ((issue w, result) # ext)
         then fst (((issue w, result) # ext) ! Suc i) = issue wj else w' = wj)"
      by (simp add: Suc)
    then show ?thesis by blast
  qed
qed

lemma retryLoop_returns_here:
  assumes rec: "\<And>w. recover (issue w) = w"
    and i: "i < length (added tr (retryLoop bound issue body exhausted be attempt working tr))"
    and ret: "body
        (recover (fst (added tr (retryLoop bound issue body exhausted be attempt working tr) ! i)))
        (snd (added tr (retryLoop bound issue body exhausted be attempt working tr) ! i))
        = Return r"
  shows "Suc i = length (added tr (retryLoop bound issue body exhausted be attempt working tr))
      \<and> fst (retryLoop bound issue body exhausted be attempt working tr) = r"
proof (cases rule: retryLoop_cases [of bound issue body exhausted be attempt working tr])
  case (returned pre wl result)
  show ?thesis
  proof (cases "i < length pre")
    case True
    from chain_nth [OF returned(3) True] obtain wi wj where
      "fst (pre ! i) = issue wi" "body wi (snd (pre ! i)) = Continue wj" by blast
    then have "body (recover (fst (pre ! i))) (snd (pre ! i)) = Continue wj"
      by (simp add: rec)
    moreover have "body (recover (fst (pre ! i))) (snd (pre ! i)) = Return r"
      using ret True by (simp add: returned(2) nth_append)
    ultimately show ?thesis by simp
  next
    case False
    with i have il: "i = length pre" by (simp add: returned(2))
    have "body wl result = Return r"
      using ret by (simp add: returned(2) il rec)
    with returned(4) show ?thesis by (simp add: returned(2) il)
  qed
next
  case (ran_out ext w')
  from i have il: "i < length ext" by (simp add: ran_out(2))
  from chain_nth [OF ran_out(3) il] obtain wi wj where
    "fst (ext ! i) = issue wi" "body wi (snd (ext ! i)) = Continue wj" by blast
  then have "body (recover (fst (ext ! i))) (snd (ext ! i)) = Continue wj"
    by (simp add: rec)
  moreover have "body (recover (fst (ext ! i))) (snd (ext ! i)) = Return r"
    using ret by (simp add: ran_out(2))
  ultimately show ?thesis by simp
qed

lemma retryLoop_continues_here:
  assumes rec: "\<And>w. recover (issue w) = w"
    and i: "i < length (added tr (retryLoop bound issue body exhausted be 0 working tr))"
    and cont: "body
        (recover (fst (added tr (retryLoop bound issue body exhausted be 0 working tr) ! i)))
        (snd (added tr (retryLoop bound issue body exhausted be 0 working tr) ! i))
        = Continue w1"
    and room: "Suc i < bound"
  shows "Suc i < length (added tr (retryLoop bound issue body exhausted be 0 working tr)) \<and>
     fst (added tr (retryLoop bound issue body exhausted be 0 working tr) ! Suc i) = issue w1"
proof (cases rule: retryLoop_cases [of bound issue body exhausted be 0 working tr])
  case (returned pre wl result)
  show ?thesis
  proof (cases "i < length pre")
    case True
    from chain_nth [OF returned(3) True] obtain wi wj where
      w: "fst (pre ! i) = issue wi" "body wi (snd (pre ! i)) = Continue wj"
      "if Suc i < length pre then fst (pre ! Suc i) = issue wj else wl = wj" by blast
    have "body (recover (fst (pre ! i))) (snd (pre ! i)) = Continue w1"
      using cont True by (simp add: returned(2) nth_append)
    with w(1,2) have "wj = w1" by (simp add: rec)
    with w(3) True show ?thesis
      by (cases "Suc i < length pre") (auto simp: returned(2) nth_append)
  next
    case False
    with i have il: "i = length pre" by (simp add: returned(2))
    have "body wl result = Continue w1"
      using cont by (simp add: returned(2) il rec)
    with returned(4) show ?thesis by simp
  qed
next
  case (ran_out ext w')
  from i have il: "i < length ext" by (simp add: ran_out(2))
  from chain_nth [OF ran_out(3) il] obtain wi wj where
    w: "fst (ext ! i) = issue wi" "body wi (snd (ext ! i)) = Continue wj"
    "if Suc i < length ext then fst (ext ! Suc i) = issue wj else w' = wj" by blast
  have "body (recover (fst (ext ! i))) (snd (ext ! i)) = Continue w1"
    using cont by (simp add: ran_out(2))
  with w(1,2) have "wj = w1" by (simp add: rec)
  moreover have "Suc i < length ext" using room ran_out(4) by simp
  ultimately show ?thesis using w(3) by (simp add: ran_out(2))
qed

section \<open>C3: the attempt bound\<close>

lemma added_issue:
  assumes "x \<in> set (added tr (retryLoop bound issue body exhausted be attempt working tr))"
  shows "\<exists>w. fst x = issue w"
proof (cases rule: retryLoop_cases [of bound issue body exhausted be attempt working tr])
  case (returned pre wl result)
  with assms have "x \<in> set pre \<or> x = (issue wl, result)" by auto
  then show ?thesis
  proof
    assume "x \<in> set pre"
    from chain_member [OF returned(3) this] show ?thesis by blast
  next
    assume "x = (issue wl, result)"
    then have "fst x = issue wl" by simp
    then show ?thesis by blast
  qed
next
  case (ran_out ext w')
  with assms have "x \<in> set ext" by simp
  then show ?thesis using chain_member [OF ran_out(3)] by blast
qed


lemma requestBody_insertRequest [simp]: "requestBody (insertRequest table select w) = w"
  by (simp add: requestBody_def insertRequest_def)




section \<open>C1: stripping the reported columns\<close>

lemma without_empty [simp]: "without P {} = P"
  by (simp add: without_def)

lemma without_js_delete: "without (js_delete c P) S = without P (insert c S)"
  by (induction P) (auto simp: without_def js_delete_def)

lemma keys_js_delete: "fst ` set (js_delete c P) = fst ` set P - {c}"
  by (auto simp: js_delete_def)

lemma reportedColumns_Nil [simp]: "reportedColumns [] = []"
  by (simp add: reportedColumns_def)

lemma reportedColumns_Cons:
  "reportedColumns (x # xs) =
     (case reportedColumn x of None \<Rightarrow> reportedColumns xs | Some c \<Rightarrow> c # reportedColumns xs)"
  by (simp add: reportedColumns_def split: option.split)

lemma reportedColumns_append:
  "reportedColumns (xs @ ys) = reportedColumns xs @ reportedColumns ys"
  by (induction xs) (simp_all add: reportedColumns_Cons split: option.split)

text \<open>
  A run of attempts that all stripped an own key of the working copy: the columns they
  report are distinct keys of the first working copy, one per attempt, and the \<open>i\<close>-th
  request carries the first working copy minus the columns reported before it.
\<close>

lemma chain_strip:
  assumes "chain issue body w ext w'"
    and "\<forall>x \<in> set ext. good x"
    and strip: "\<And>w result w1. good (issue w, result) \<Longrightarrow> body w result = Continue w1 \<Longrightarrow>
        \<exists>c. reportedColumn (issue w, result) = Some c \<and> hasOwn c w \<and> w1 = js_delete c w"
  shows "w' = without w (set (reportedColumns ext)) \<and>
     distinct (reportedColumns ext) \<and>
     set (reportedColumns ext) \<subseteq> fst ` set w \<and>
     length (reportedColumns ext) = length ext \<and>
     (\<forall>i < length ext. fst (ext ! i) = issue (without w (set (take i (reportedColumns ext)))))"
  using assms(1,2)
proof (induction rule: chain.induct)
  case (chain_Nil w)
  then show ?case by simp
next
  case (chain_Cons w result w1 ext w')
  from chain_Cons.prems have g: "good (issue w, result)" and rest: "\<forall>x \<in> set ext. good x"
    by simp_all
  from strip [OF g chain_Cons.hyps(1)] obtain c where
    c: "reportedColumn (issue w, result) = Some c" "hasOwn c w" "w1 = js_delete c w"
    by blast
  let ?cols = "reportedColumns ext"
  from chain_Cons.IH [OF rest] have
    ih1: "w' = without w1 (set ?cols)" and ih2: "distinct ?cols"
    and ih3: "set ?cols \<subseteq> fst ` set w1" and ih4: "length ?cols = length ext"
    and ih5: "\<forall>i < length ext. fst (ext ! i) = issue (without w1 (set (take i ?cols)))"
    by blast+
  have cols: "reportedColumns ((issue w, result) # ext) = c # ?cols"
    by (simp add: reportedColumns_Cons c(1))
  have notin: "c \<notin> set ?cols"
    using ih3 by (auto simp: c(3) keys_js_delete)
  have 1: "w' = without w (set (c # ?cols))"
    using ih1 by (simp add: c(3) without_js_delete)
  have 2: "distinct (c # ?cols)" using ih2 notin by simp
  have 3: "set (c # ?cols) \<subseteq> fst ` set w"
    using ih3 c(2) by (auto simp: c(3) keys_js_delete hasOwn_def)
  have 4: "length (c # ?cols) = length ((issue w, result) # ext)" using ih4 by simp
  have 5: "fst (((issue w, result) # ext) ! i) = issue (without w (set (take i (c # ?cols))))"
    if "i < length ((issue w, result) # ext)" for i
  proof (cases i)
    case 0
    then show ?thesis by simp
  next
    case (Suc j)
    with that have "j < length ext" by simp
    with ih5 have "fst (ext ! j) = issue (without w1 (set (take j ?cols)))" by blast
    then show ?thesis by (simp add: Suc c(3) without_js_delete)
  qed
  from 1 2 3 4 5 show ?case unfolding cols by blast
qed

text \<open>
  The loop, when every attempt either succeeds or strips: with fewer reported columns than
  the bound, the last attempt succeeded, on the payload minus the reported columns.
\<close>

lemma retryLoop_strips:
  fixes issue body exhausted be payload tr bound
  defines "R \<equiv> retryLoop bound issue body exhausted be 0 payload tr"
  assumes good: "\<forall>x \<in> set (added tr R). good x"
    and few: "card (set (reportedColumns (added tr R))) < bound"
    and strip: "\<And>w result w1. good (issue w, result) \<Longrightarrow> body w result = Continue w1 \<Longrightarrow>
        \<exists>c. reportedColumn (issue w, result) = Some c \<and> hasOwn c w \<and> w1 = js_delete c w"
    and ret: "\<And>w result r. good (issue w, result) \<Longrightarrow> body w result = Return r \<Longrightarrow>
        error result = None \<and> r = success result"
  shows "added tr R \<noteq> [] \<and>
     error (snd (last (added tr R))) = None \<and>
     fst (last (added tr R)) = issue (without payload (set (reportedColumns (added tr R)))) \<and>
     fst R = success (snd (last (added tr R))) \<and>
     length (added tr R) = Suc (card (set (reportedColumns (added tr R)))) \<and>
     (\<forall>i < length (added tr R).
        fst (added tr R ! i) =
          issue (without payload (set (take i (reportedColumns (added tr R))))))"
proof (cases rule: retryLoop_cases [of bound issue body exhausted be 0 payload tr])
  case (returned pre wl result)
  note add = returned(2) [folded R_def]
  have gpre: "\<forall>x \<in> set pre. good x" and glast: "good (issue wl, result)"
    using good by (simp_all add: add)
  from chain_strip [OF returned(3) gpre strip] have
    wl: "wl = without payload (set (reportedColumns pre))"
    and dist: "distinct (reportedColumns pre)"
    and len: "length (reportedColumns pre) = length pre"
    and bodies: "\<forall>i < length pre.
        fst (pre ! i) = issue (without payload (set (take i (reportedColumns pre))))"
    by blast+
  from ret [OF glast returned(4) [folded R_def]]
  have ok: "error result = None" and r: "fst R = success result" by simp_all
  have last_none: "reportedColumn (issue wl, result) = None"
    by (simp add: reportedColumn_def ok)
  have cols: "reportedColumns (pre @ [(issue wl, result)]) = reportedColumns pre"
    by (simp add: reportedColumns_append reportedColumns_Cons last_none)
  have card: "card (set (reportedColumns pre)) = length pre"
    using dist len by (simp add: distinct_card)
  have b: "fst (added tr R ! i) =
      issue (without payload (set (take i (reportedColumns (added tr R)))))"
    if "i < length (added tr R)" for i
  proof (cases "i < length pre")
    case True
    with bodies show ?thesis by (simp add: add cols nth_append)
  next
    case False
    with that have i: "i = length pre" by (simp add: add)
    have 1: "fst (added tr R ! i) = issue wl" by (simp add: add i)
    have "reportedColumns (added tr R) = reportedColumns pre"
      by (simp only: add cols)
    then have 2: "take i (reportedColumns (added tr R)) = reportedColumns pre"
      using len by (simp add: i)
    show ?thesis unfolding 1 2 wl ..
  qed
  have colsR: "reportedColumns (added tr R) = reportedColumns pre"
    by (simp only: add cols)
  have lastR: "last (added tr R) = (issue wl, result)" by (simp add: add)
  have lenR: "length (added tr R) = Suc (length pre)" by (simp add: add)
  show ?thesis
  proof (intro conjI allI impI)
    show "added tr R \<noteq> []" by (simp add: add)
    show "error (snd (last (added tr R))) = None" by (simp add: lastR ok)
    show "fst (last (added tr R)) =
        issue (without payload (set (reportedColumns (added tr R))))"
      by (simp only: lastR colsR fst_conv wl)
    show "fst R = success (snd (last (added tr R)))" by (simp add: lastR r)
    show "length (added tr R) = Suc (card (set (reportedColumns (added tr R))))"
      by (simp only: lenR colsR card)
    show "fst (added tr R ! i) =
        issue (without payload (set (take i (reportedColumns (added tr R)))))"
      if "i < length (added tr R)" for i
      using that by (rule b)
  qed
next
  case (ran_out ext w')
  note add = ran_out(2) [folded R_def]
  have "\<forall>x \<in> set ext. good x" using good by (simp add: add)
  from chain_strip [OF ran_out(3) this strip]
  have "distinct (reportedColumns ext)" "length (reportedColumns ext) = length ext"
    by blast+
  then have "card (set (reportedColumns ext)) = bound"
    using ran_out(4) by (simp add: distinct_card)
  with few show ?thesis by (simp add: add)
qed

lemma js_in_own: "hasOwn c w \<Longrightarrow> js_in c w"
  by (simp add: js_in_def)

lemma insertBody_strip:
  assumes "namesPresentColumn (insertRequest table select w, result) \<and>
      \<not> classifiedFirst (insertRequest table select w, result)"
    and "insertBody w result = Continue w1"
  shows "\<exists>c. reportedColumn (insertRequest table select w, result) = Some c \<and>
      hasOwn c w \<and> w1 = js_delete c w"
  using assms
  by (auto simp: insertBody_def namesPresentColumn_def classifiedFirst_def reportedColumn_def
      split: option.splits if_splits)

lemma insertBody_return:
  assumes "namesPresentColumn (insertRequest table select w, result) \<and>
      \<not> classifiedFirst (insertRequest table select w, result)"
    and "insertBody w result = Return r"
  shows "error result = None \<and>
      r = \<lparr>res_data = nullish (data result), res_error = None, duplicate = False\<rparr>"
  using assms
  by (auto simp: insertBody_def namesPresentColumn_def classifiedFirst_def js_in_own
      split: option.splits if_splits)

lemma insertBody_script_strip:
  assumes "namesPresentColumn_script (Insert table w sel, result) \<and>
      \<not> classifiedFirst_script (Insert table w sel, result)"
    and "insertBody_script table w result = Continue w1"
  shows "\<exists>c. reportedColumn (Insert table w sel, result) = Some c \<and>
      hasOwn c w \<and> w1 = js_delete c w"
  using assms
  by (auto simp: insertBody_script_def namesPresentColumn_script_def
      classifiedFirst_script_def reportedColumn_def requestBody_def
      split: option.splits if_splits)

lemma insertBody_script_return:
  assumes "namesPresentColumn_script (Insert table w sel, result) \<and>
      \<not> classifiedFirst_script (Insert table w sel, result)"
    and "insertBody_script table w result = Return r"
  shows "error result = None \<and>
      r = \<lparr>ok = True, sr_data = orNull (data result), sr_table = Some table,
            missing = False, permission = False, skipped = False, sr_error = None\<rparr>"
  using assms
  by (auto simp: insertBody_script_def namesPresentColumn_script_def
      classifiedFirst_script_def js_in_own requestBody_def
      split: option.splits if_splits)

text \<open>
  C1, as stated, at the check-in smoke script: the store answers the first insert with
  PostgreSQL's missing-column error for \<open>church_name\<close>, a key of the row. One column is
  reported, fewer than the bound 10. The script reads "relation ... does not exist" in
  that message, returns the "missing" failure and never reissues the insert.
\<close>

theorem C1_counterexample:
  "added [] (insertWithColumnFallback_checkin churchNameMissing ''radar_events'' eventRow
      ''id'' []) =
     [(Insert ''radar_events'' eventRow (Some ''id''),
       \<lparr>data = Null, error = Some relationColumnError\<rparr>)] \<and>
   namesPresentColumn_script
     (Insert ''radar_events'' eventRow (Some ''id''),
      \<lparr>data = Null, error = Some relationColumnError\<rparr>) \<and>
   reportedColumns
     [(Insert ''radar_events'' eventRow (Some ''id''),
       \<lparr>data = Null, error = Some relationColumnError\<rparr>)] = [''church_name''] \<and>
   \<not> ok (fst (insertWithColumnFallback_checkin churchNameMissing ''radar_events'' eventRow
      ''id'' [])) \<and>
   missing (fst (insertWithColumnFallback_checkin churchNameMissing ''radar_events'' eventRow
      ''id'' []))"
  by code_simp

text \<open>
  C1, amended. Let every failed attempt of \<open>insertWithColumnFallback\<close> report a
  missing-column error whose extracted column name is a key of the working copy, and let
  none of these errors be one the loop classifies before it looks for a column (a duplicate
  key on the radar page; a missing relation or a permission error in the script). Let
  \<open>S\<close> be the set of reported columns, with fewer elements than the bound (8 on the page,
  10 in the script). Then the \<open>i\<close>-th request carries the payload minus the columns
  reported before it, the last attempt succeeds on the payload minus \<open>S\<close> after \<open>|S| + 1\<close>
  attempts, and the call returns the success result with the data of that answer.
\<close>

theorem C1_column_fallback_converges:
  fixes be :: backend and table :: string and payload :: payload and tr :: "exchange list"
    and select :: "string option" and columns :: string
  defines "R \<equiv> insertWithColumnFallback be table payload select tr"
    and "E \<equiv> added tr (insertWithColumnFallback be table payload select tr)"
    and "R' \<equiv> insertWithColumnFallback_checkin be table payload columns tr"
    and "E' \<equiv> added tr (insertWithColumnFallback_checkin be table payload columns tr)"
  shows
   "((\<forall>x \<in> set E. namesPresentColumn x \<and> \<not> classifiedFirst x) \<and>
     card (set (reportedColumns E)) < 8 \<longrightarrow>
       E \<noteq> [] \<and> error (snd (last E)) = None \<and>
       requestBody (fst (last E)) = without payload (set (reportedColumns E)) \<and>
       fst R = \<lparr>res_data = nullish (data (snd (last E))), res_error = None,
                 duplicate = False\<rparr> \<and>
       length E = Suc (card (set (reportedColumns E))) \<and>
       (\<forall>i < length E.
          requestBody (fst (E ! i)) = without payload (set (take i (reportedColumns E))))) \<and>
    ((\<forall>x \<in> set E'. namesPresentColumn_script x \<and> \<not> classifiedFirst_script x) \<and>
     card (set (reportedColumns E')) < 10 \<longrightarrow>
       E' \<noteq> [] \<and> error (snd (last E')) = None \<and>
       requestBody (fst (last E')) = without payload (set (reportedColumns E')) \<and>
       fst R' = \<lparr>ok = True, sr_data = orNull (data (snd (last E'))), sr_table = Some table,
                  missing = False, permission = False, skipped = False, sr_error = None\<rparr> \<and>
       length E' = Suc (card (set (reportedColumns E'))) \<and>
       (\<forall>i < length E'.
          requestBody (fst (E' ! i)) = without payload (set (take i (reportedColumns E')))))"
proof (rule conjI; rule impI)
  assume h: "(\<forall>x \<in> set E. namesPresentColumn x \<and> \<not> classifiedFirst x) \<and>
     card (set (reportedColumns E)) < 8"
  let ?L = "retryLoop 8 (insertRequest table select) insertBody (insertExhausted table)
      be 0 payload tr"
  have E: "E = added tr ?L" and R: "R = ?L"
    by (simp_all add: E_def R_def insertWithColumnFallback_def)
  from h have good: "\<forall>x \<in> set (added tr ?L). namesPresentColumn x \<and> \<not> classifiedFirst x"
    and few: "card (set (reportedColumns (added tr ?L))) < 8"
    by (simp_all add: E)
  from retryLoop_strips [of tr 8 "insertRequest table select" insertBody
      "insertExhausted table" be payload
      "\<lambda>x. namesPresentColumn x \<and> \<not> classifiedFirst x"
      "\<lambda>result. \<lparr>res_data = nullish (data result), res_error = None, duplicate = False\<rparr>",
      OF good few insertBody_strip insertBody_return]
  show "E \<noteq> [] \<and> error (snd (last E)) = None \<and>
       requestBody (fst (last E)) = without payload (set (reportedColumns E)) \<and>
       fst R = \<lparr>res_data = nullish (data (snd (last E))), res_error = None,
                 duplicate = False\<rparr> \<and>
       length E = Suc (card (set (reportedColumns E))) \<and>
       (\<forall>i < length E.
          requestBody (fst (E ! i)) = without payload (set (take i (reportedColumns E))))"
    unfolding E R by simp
next
  assume h: "(\<forall>x \<in> set E'. namesPresentColumn_script x \<and> \<not> classifiedFirst_script x) \<and>
     card (set (reportedColumns E')) < 10"
  let ?issue = "\<lambda>working. Insert table working (Some columns)"
  let ?L = "retryLoop 10 ?issue (insertBody_script table) (insertExhausted_script table)
      be 0 payload tr"
  have E: "E' = added tr ?L" and R: "R' = ?L"
    by (simp_all add: E'_def R'_def insertWithColumnFallback_checkin_def insertLoop_script_def)
  from h have good: "\<forall>x \<in> set (added tr ?L).
      namesPresentColumn_script x \<and> \<not> classifiedFirst_script x"
    and few: "card (set (reportedColumns (added tr ?L))) < 10"
    by (simp_all add: E)
  from retryLoop_strips [of tr 10 ?issue "insertBody_script table"
      "insertExhausted_script table" be payload
      "\<lambda>x. namesPresentColumn_script x \<and> \<not> classifiedFirst_script x"
      "\<lambda>result. \<lparr>ok = True, sr_data = orNull (data result), sr_table = Some table,
            missing = False, permission = False, skipped = False, sr_error = None\<rparr>",
      OF good few insertBody_script_strip insertBody_script_return]
  show "E' \<noteq> [] \<and> error (snd (last E')) = None \<and>
       requestBody (fst (last E')) = without payload (set (reportedColumns E')) \<and>
       fst R' = \<lparr>ok = True, sr_data = orNull (data (snd (last E'))), sr_table = Some table,
                  missing = False, permission = False, skipped = False, sr_error = None\<rparr> \<and>
       length E' = Suc (card (set (reportedColumns E'))) \<and>
       (\<forall>i < length E'.
          requestBody (fst (E' ! i)) = without payload (set (take i (reportedColumns E'))))"
    unfolding E R by (simp add: requestBody_def)
qed

theorem C1_column_fallback_converges_witness:
  "(list_all (\<lambda>x. namesPresentColumn x \<and> \<not> classifiedFirst x)
       (added [] (insertWithColumnFallback churchNameUnknown ''radar_events''
          eventRow (Some ''id'') [])) \<and>
    card (set (reportedColumns (added [] (insertWithColumnFallback churchNameUnknown
          ''radar_events'' eventRow (Some ''id'') [])))) < 8) \<and>
   (list_all (\<lambda>x. namesPresentColumn_script x \<and> \<not> classifiedFirst_script x)
       (added [] (insertWithColumnFallback_checkin churchNameUnknown ''radar_events''
          eventRow ''id'' [])) \<and>
    card (set (reportedColumns (added [] (insertWithColumnFallback_checkin churchNameUnknown
          ''radar_events'' eventRow ''id'' [])))) < 10) \<and>
   requestBody (fst (last (added [] (insertWithColumnFallback churchNameUnknown
          ''radar_events'' eventRow (Some ''id'') [])))) =
     without eventRow (set (reportedColumns (added [] (insertWithColumnFallback
          churchNameUnknown ''radar_events'' eventRow (Some ''id'') [])))) \<and>
   length (added [] (insertWithColumnFallback churchNameUnknown ''radar_events''
          eventRow (Some ''id'') [])) =
     Suc (card (set (reportedColumns (added [] (insertWithColumnFallback churchNameUnknown
          ''radar_events'' eventRow (Some ''id'') []))))) \<and>
   requestBody (fst (last (added [] (insertWithColumnFallback_checkin churchNameUnknown
          ''radar_events'' eventRow ''id'' [])))) =
     without eventRow (set (reportedColumns (added [] (insertWithColumnFallback_checkin
          churchNameUnknown ''radar_events'' eventRow ''id'' [])))) \<and>
   length (added [] (insertWithColumnFallback_checkin churchNameUnknown ''radar_events''
          eventRow ''id'' [])) =
     Suc (card (set (reportedColumns (added [] (insertWithColumnFallback_checkin
          churchNameUnknown ''radar_events'' eventRow ''id'' [])))))"
proof -
  have page: "list_all (\<lambda>x. namesPresentColumn x \<and> \<not> classifiedFirst x)
       (added [] (insertWithColumnFallback churchNameUnknown ''radar_events''
          eventRow (Some ''id'') [])) \<and>
    card (set (reportedColumns (added [] (insertWithColumnFallback churchNameUnknown
          ''radar_events'' eventRow (Some ''id'') [])))) < 8"
    by code_simp
  have script: "list_all (\<lambda>x. namesPresentColumn_script x \<and> \<not> classifiedFirst_script x)
       (added [] (insertWithColumnFallback_checkin churchNameUnknown
          ''radar_events'' eventRow ''id'' [])) \<and>
    card (set (reportedColumns (added [] (insertWithColumnFallback_checkin churchNameUnknown
          ''radar_events'' eventRow ''id'' [])))) < 10"
    by code_simp
  note inst = C1_column_fallback_converges
    [where be = churchNameUnknown and table = "''radar_events''" and payload = eventRow
       and select = "Some ''id''" and tr = "[]" and columns = "''id''"]
  note c1 = mp [OF conjunct1 [OF inst] page [unfolded list_all_iff]]
  note c2 = mp [OF conjunct2 [OF inst] script [unfolded list_all_iff]]
  from page script c1 c2 show ?thesis by blast
qed

section \<open>C5: a duplicate key is a success\<close>

lemma insertBody_duplicate:
  assumes "error result = Some e" and "isDuplicateError (message e)"
  shows "insertBody working result =
     Return \<lparr>res_data = nullish (data result), res_error = None, duplicate = True\<rparr>"
  using assms by (simp add: insertBody_def)

text \<open>
  C5. Whichever attempt of the radar page's \<open>insertWithColumnFallback\<close> is answered with a
  duplicate-key error, that attempt is the last one of the call, and the call returns the
  success shape: no error, the duplicate flag set, the data of that answer.
\<close>

theorem C5_duplicate_key_returns_success:
  assumes i: "i < length (added tr (insertWithColumnFallback be table payload select tr))"
    and e: "error (snd (added tr (insertWithColumnFallback be table payload select tr) ! i))
              = Some e"
    and dup: "isDuplicateError (message e)"
  shows "Suc i = length (added tr (insertWithColumnFallback be table payload select tr)) \<and>
     fst (insertWithColumnFallback be table payload select tr) =
       \<lparr>res_data =
          nullish (data (snd (added tr (insertWithColumnFallback be table payload select tr) ! i))),
        res_error = None, duplicate = True\<rparr>"
proof -
  define R where "R = insertWithColumnFallback be table payload select tr"
  define ext where "ext = added tr R"
  have notcont: "insertBody w (snd (ext ! i)) \<noteq> Continue w'" for w w'
    using insertBody_duplicate [OF e [folded R_def ext_def] dup] by simp
  have ret: "insertBody w (snd (ext ! i)) = Return r \<Longrightarrow>
      r = \<lparr>res_data = nullish (data (snd (ext ! i))), res_error = None, duplicate = True\<rparr>"
    for w r
    using insertBody_duplicate [OF e [folded R_def ext_def] dup] by simp
  have i': "i < length ext" using i by (simp add: R_def ext_def)
  have "Suc i = length ext \<and>
      fst R = \<lparr>res_data = nullish (data (snd (ext ! i))), res_error = None, duplicate = True\<rparr>"
  proof (cases rule: retryLoop_cases
      [of 8 "insertRequest table select" insertBody "insertExhausted table" be 0 payload tr])
    case (returned pre wl result)
    then have ext: "ext = pre @ [(insertRequest table select wl, result)]"
      by (simp add: ext_def R_def insertWithColumnFallback_def)
    have body: "insertBody wl result = Return (fst R)"
      using returned(4) by (simp add: R_def insertWithColumnFallback_def)
    show ?thesis
    proof (cases "i < length pre")
      case True
      then have "ext ! i \<in> set pre" by (simp add: ext nth_append)
      from chain_member [OF returned(3) this] notcont show ?thesis by blast
    next
      case False
      with i' ext have il: "i = length pre" by simp
      then have "snd (ext ! i) = result" by (simp add: ext)
      with body ret [of wl "fst R"] il ext show ?thesis by simp
    qed
  next
    case (ran_out ext' w')
    then have "ext = ext'" by (simp add: ext_def R_def insertWithColumnFallback_def)
    with i' have "ext ! i \<in> set ext'" by simp
    from chain_member [OF ran_out(3) this] notcont show ?thesis by blast
  qed
  then show ?thesis by (simp add: R_def ext_def)
qed

theorem C5_duplicate_key_returns_success_witness:
  "0 < length (added [] (insertWithColumnFallback duplicateBackend ''radar_participants''
          participantRow None [])) \<and>
   error (snd (added [] (insertWithColumnFallback duplicateBackend ''radar_participants''
          participantRow None []) ! 0)) = Some duplicateKeyError \<and>
   isDuplicateError (message duplicateKeyError) \<and>
   Suc 0 = length (added [] (insertWithColumnFallback duplicateBackend ''radar_participants''
          participantRow None [])) \<and>
   fst (insertWithColumnFallback duplicateBackend ''radar_participants'' participantRow None [])
     = \<lparr>res_data = Null, res_error = None, duplicate = True\<rparr>"
proof -
  have run: "added [] (insertWithColumnFallback duplicateBackend ''radar_participants''
          participantRow None []) =
      [(Insert ''radar_participants'' participantRow None,
        \<lparr>data = Null, error = Some duplicateKeyError\<rparr>)]"
    by code_simp
  have i: "0 < length (added [] (insertWithColumnFallback duplicateBackend
      ''radar_participants'' participantRow None []))"
    by (simp add: run)
  have e: "error (snd (added [] (insertWithColumnFallback duplicateBackend
      ''radar_participants'' participantRow None []) ! 0)) = Some duplicateKeyError"
    by (simp add: run)
  have dup: "isDuplicateError (message duplicateKeyError)"
    by code_simp
  from C5_duplicate_key_returns_success [OF i e dup] i e dup
  show ?thesis by (simp add: run nullish_def)
qed

section \<open>C2: a missing relation ends the call\<close>

text \<open>
  C2, as stated, at the radar page. The page's loop has no test for a missing relation and
  its result has no "missing" flag. An absent table (first store) yields the same generic
  failure as any error the loop does not know. And an error that the page's own
  \<open>isMissingRelationError\<close> accepts is retried against the same table when it also names a
  column of the row (second store): two inserts into \<open>radar_events\<close>.
\<close>

theorem C2_counterexample:
  "isMissingRelationError (message absentTableError) \<and>
   fst (insertWithColumnFallback absentTable ''radar_events'' eventRow (Some ''id'') []) =
     \<lparr>res_data = Null, res_error = Some absentTableError, duplicate = False\<rparr> \<and>
   isMissingRelationError (message relationColumnError) \<and>
   added [] (insertWithColumnFallback churchNameMissing ''radar_events'' eventRow
       (Some ''id'') []) =
     [(Insert ''radar_events'' eventRow (Some ''id''),
       \<lparr>data = Null, error = Some relationColumnError\<rparr>),
      (Insert ''radar_events''
         [(''title'', Str ''Misa''), (''church_id'', Str ''c1'')] (Some ''id''),
       \<lparr>data = Obj [(''id'', Str ''r1'')], error = None\<rparr>)]"
  by code_simp

lemma insertBody_script_missing:
  assumes "error result = Some e" and "isMissingRelationError_script e"
  shows "insertBody_script table w result =
     Return \<lparr>ok = False, sr_data = Undefined, sr_table = Some table, missing = True,
             permission = False, skipped = False, sr_error = Some e\<rparr>"
  using assms by (simp add: insertBody_script_def scriptFailure_def)

lemma insertBody_no_column:
  assumes "error result = Some e" and "\<not> isDuplicateError (message e)"
    and "extractMissingColumnName (message e) = None"
  shows "insertBody w result =
     Return \<lparr>res_data = Null, res_error = Some e, duplicate = False\<rparr>"
  using assms by (simp add: insertBody_def)

lemma insertLoop_script_missing:
  assumes "i < length (added tr (insertLoop_script bound be table payload columns tr))"
    and "error (snd (added tr (insertLoop_script bound be table payload columns tr) ! i))
        = Some e"
    and "isMissingRelationError_script e"
  shows "Suc i = length (added tr (insertLoop_script bound be table payload columns tr)) \<and>
     fst (insertLoop_script bound be table payload columns tr) =
       \<lparr>ok = False, sr_data = Undefined, sr_table = Some table, missing = True,
        permission = False, skipped = False, sr_error = Some e\<rparr>"
  using assms unfolding insertLoop_script_def
  by (intro retryLoop_returns_at insertBody_script_missing)

text \<open>
  C2, amended. In the smoke scripts' \<open>insertWithColumnFallback\<close> (both bounds), the attempt
  that is answered with an error \<open>isMissingRelationError\<close> accepts is the last attempt of
  the call, and the call returns the distinct failure
  \<open>{ ok: false, missing: true, table, error }\<close>. The radar page's \<open>insertWithColumnFallback\<close>
  has no such test and no such result: when its own \<open>isMissingRelationError\<close> accepts the
  error, the message is no duplicate-key message and names no column (as the messages for
  an absent table do), that attempt is the last one and the call returns the generic
  failure \<open>{ data: null, error, duplicate: false }\<close> with the raw error.
\<close>

theorem C2_missing_relation_returns:
  fixes be :: backend and table :: string and payload :: payload and tr :: "exchange list"
    and select :: "string option" and columns :: string and e :: pg_error and i :: nat
  defines "E \<equiv> added tr (insertWithColumnFallback be table payload select tr)"
    and "E10 \<equiv> added tr (insertWithColumnFallback_checkin be table payload columns tr)"
    and "E12 \<equiv> added tr (insertWithColumnFallback_invite be table payload columns tr)"
  shows
   "(i < length E12 \<and> error (snd (E12 ! i)) = Some e \<and> isMissingRelationError_script e \<longrightarrow>
       Suc i = length E12 \<and>
       fst (insertWithColumnFallback_invite be table payload columns tr) =
         \<lparr>ok = False, sr_data = Undefined, sr_table = Some table, missing = True,
          permission = False, skipped = False, sr_error = Some e\<rparr>) \<and>
    (i < length E10 \<and> error (snd (E10 ! i)) = Some e \<and> isMissingRelationError_script e \<longrightarrow>
       Suc i = length E10 \<and>
       fst (insertWithColumnFallback_checkin be table payload columns tr) =
         \<lparr>ok = False, sr_data = Undefined, sr_table = Some table, missing = True,
          permission = False, skipped = False, sr_error = Some e\<rparr>) \<and>
    (i < length E \<and> error (snd (E ! i)) = Some e \<and> isMissingRelationError (message e) \<and>
     \<not> isDuplicateError (message e) \<and> extractMissingColumnName (message e) = None \<longrightarrow>
       Suc i = length E \<and>
       fst (insertWithColumnFallback be table payload select tr) =
         \<lparr>res_data = Null, res_error = Some e, duplicate = False\<rparr>)"
proof (intro conjI; rule impI)
  assume "i < length E12 \<and> error (snd (E12 ! i)) = Some e \<and> isMissingRelationError_script e"
  then show "Suc i = length E12 \<and>
       fst (insertWithColumnFallback_invite be table payload columns tr) =
         \<lparr>ok = False, sr_data = Undefined, sr_table = Some table, missing = True,
          permission = False, skipped = False, sr_error = Some e\<rparr>"
    unfolding E12_def insertWithColumnFallback_invite_def
    using insertLoop_script_missing [of i tr 12 be table payload columns e] by blast
next
  assume "i < length E10 \<and> error (snd (E10 ! i)) = Some e \<and> isMissingRelationError_script e"
  then show "Suc i = length E10 \<and>
       fst (insertWithColumnFallback_checkin be table payload columns tr) =
         \<lparr>ok = False, sr_data = Undefined, sr_table = Some table, missing = True,
          permission = False, skipped = False, sr_error = Some e\<rparr>"
    unfolding E10_def insertWithColumnFallback_checkin_def
    using insertLoop_script_missing [of i tr 10 be table payload columns e] by blast
next
  assume h: "i < length E \<and> error (snd (E ! i)) = Some e \<and>
     isMissingRelationError (message e) \<and>
     \<not> isDuplicateError (message e) \<and> extractMissingColumnName (message e) = None"
  then have i: "i < length (added tr (retryLoop 8 (insertRequest table select) insertBody
        (insertExhausted table) be 0 payload tr))"
    and body: "\<And>w. insertBody w (snd (added tr (retryLoop 8 (insertRequest table select)
        insertBody (insertExhausted table) be 0 payload tr) ! i)) =
        Return \<lparr>res_data = Null, res_error = Some e, duplicate = False\<rparr>"
    by (simp_all add: E_def insertWithColumnFallback_def insertBody_no_column)
  from retryLoop_returns_at [OF i body]
  show "Suc i = length E \<and>
       fst (insertWithColumnFallback be table payload select tr) =
         \<lparr>res_data = Null, res_error = Some e, duplicate = False\<rparr>"
    by (simp add: E_def insertWithColumnFallback_def)
qed

theorem C2_missing_relation_returns_witness:
  "(0 < length (added [] (insertWithColumnFallback_invite absentTable ''radar_events''
        eventRow ''id'' [])) \<and>
    error (snd (added [] (insertWithColumnFallback_invite absentTable ''radar_events''
        eventRow ''id'' []) ! 0)) = Some absentTableError \<and>
    isMissingRelationError_script absentTableError) \<and>
   (0 < length (added [] (insertWithColumnFallback_checkin absentTable ''radar_events''
        eventRow ''id'' [])) \<and>
    error (snd (added [] (insertWithColumnFallback_checkin absentTable ''radar_events''
        eventRow ''id'' []) ! 0)) = Some absentTableError \<and>
    isMissingRelationError_script absentTableError) \<and>
   (0 < length (added [] (insertWithColumnFallback absentTable ''radar_events''
        eventRow (Some ''id'') [])) \<and>
    error (snd (added [] (insertWithColumnFallback absentTable ''radar_events''
        eventRow (Some ''id'') []) ! 0)) = Some absentTableError \<and>
    isMissingRelationError (message absentTableError) \<and>
    \<not> isDuplicateError (message absentTableError) \<and>
    extractMissingColumnName (message absentTableError) = None) \<and>
   Suc 0 = length (added [] (insertWithColumnFallback_invite absentTable ''radar_events''
        eventRow ''id'' [])) \<and>
   fst (insertWithColumnFallback_invite absentTable ''radar_events'' eventRow ''id'' []) =
     \<lparr>ok = False, sr_data = Undefined, sr_table = Some ''radar_events'', missing = True,
      permission = False, skipped = False, sr_error = Some absentTableError\<rparr> \<and>
   Suc 0 = length (added [] (insertWithColumnFallback_checkin absentTable ''radar_events''
        eventRow ''id'' [])) \<and>
   Suc 0 = length (added [] (insertWithColumnFallback absentTable ''radar_events''
        eventRow (Some ''id'') [])) \<and>
   fst (insertWithColumnFallback absentTable ''radar_events'' eventRow (Some ''id'') []) =
     \<lparr>res_data = Null, res_error = Some absentTableError, duplicate = False\<rparr>"
proof -
  have h12: "0 < length (added [] (insertWithColumnFallback_invite absentTable
        ''radar_events'' eventRow ''id'' [])) \<and>
    error (snd (added [] (insertWithColumnFallback_invite absentTable ''radar_events''
        eventRow ''id'' []) ! 0)) = Some absentTableError \<and>
    isMissingRelationError_script absentTableError"
    by code_simp
  have h10: "0 < length (added [] (insertWithColumnFallback_checkin absentTable
        ''radar_events'' eventRow ''id'' [])) \<and>
    error (snd (added [] (insertWithColumnFallback_checkin absentTable ''radar_events''
        eventRow ''id'' []) ! 0)) = Some absentTableError \<and>
    isMissingRelationError_script absentTableError"
    by code_simp
  have h8: "0 < length (added [] (insertWithColumnFallback absentTable ''radar_events''
        eventRow (Some ''id'') [])) \<and>
    error (snd (added [] (insertWithColumnFallback absentTable ''radar_events''
        eventRow (Some ''id'') []) ! 0)) = Some absentTableError \<and>
    isMissingRelationError (message absentTableError) \<and>
    \<not> isDuplicateError (message absentTableError) \<and>
    extractMissingColumnName (message absentTableError) = None"
    by code_simp
  note inst = C2_missing_relation_returns
    [where be = absentTable and table = "''radar_events''" and payload = eventRow
       and select = "Some ''id''" and tr = "[]" and columns = "''id''"
       and e = absentTableError and i = 0]
  note c12 = mp [OF conjunct1 [OF inst] h12]
  note c10 = mp [OF conjunct1 [OF conjunct2 [OF inst]] h10]
  note c8 = mp [OF conjunct2 [OF conjunct2 [OF inst]] h8]
  from h12 h10 h8 c12 c10 c8 show ?thesis by blast
qed

section \<open>C7: the permission classifier\<close>

lemma isPermissionError_iff:
  "isPermissionError m \<longleftrightarrow>
     containsCI m ''42501'' \<or> containsCI m ''permission denied'' \<or>
     containsCI m ''row-level security''"
  by (simp add: isPermissionError_def Let_def includes_lower_iff_containsCI)

lemma isPermissionError_script_iff:
  "isPermissionError_script e \<longleftrightarrow>
     containsCI (message e @ '' '' @ details e) ''42501'' \<or>
     containsCI (message e @ '' '' @ details e) ''permission denied'' \<or>
     containsCI (message e @ '' '' @ details e) ''row-level security'' \<or>
     containsCI (message e @ '' '' @ details e) ''not authenticated''"
  by (simp add: isPermissionError_script_def normalizeError_def Let_def
      includes_lower_iff_containsCI)

lemma containsCI_message:
  assumes "containsCI (message e) sig"
  shows "containsCI (message e @ '' '' @ details e) sig"
proof -
  from assms obtain pre mid post where
    "message e = pre @ mid @ post" "toLowerCase mid = sig"
    unfolding containsCI_def by blast
  then have "message e @ '' '' @ details e = pre @ mid @ (post @ '' '' @ details e)
      \<and> toLowerCase mid = sig"
    by simp
  then show ?thesis unfolding containsCI_def by blast
qed

text \<open>
  C7, as stated, at the radar page: a message that contains "not authenticated" is a
  permission error. The page's classifier says no; the page recognises that message with
  \<open>isNotAuthenticatedError\<close> instead.
\<close>

theorem C7_counterexample:
  "containsCI ''JWT expired: Not Authenticated'' ''not authenticated'' \<and>
   \<not> isPermissionError ''JWT expired: Not Authenticated'' \<and>
   isNotAuthenticatedError ''JWT expired: Not Authenticated''"
proof -
  have "str_includes (toLowerCase ''JWT expired: Not Authenticated'') ''not authenticated''"
    by code_simp
  then have "containsCI ''JWT expired: Not Authenticated'' ''not authenticated''"
    by (simp only: includes_lower_iff_containsCI)
  moreover have "\<not> isPermissionError ''JWT expired: Not Authenticated''"
    by code_simp
  moreover have "isNotAuthenticatedError ''JWT expired: Not Authenticated''"
    by code_simp
  ultimately show ?thesis by blast
qed

text \<open>
  C7, amended. The radar page's \<open>isPermissionError\<close> is true exactly for the messages that
  contain, in any letter case, 42501, "permission denied" or "row-level security";
  "not authenticated" is the separate classifier \<open>isNotAuthenticatedError\<close> there. The
  smoke scripts' \<open>isPermissionError\<close> is true exactly when the text it classifies (message,
  a space, details) contains one of the four signals, hence for every error whose message
  contains one.
\<close>

theorem C7_isPermissionError_signals:
  "(isPermissionError m \<longleftrightarrow> (\<exists>sig \<in> set permissionSignals_page. containsCI m sig)) \<and>
   (isNotAuthenticatedError m \<longleftrightarrow> containsCI m ''not authenticated'') \<and>
   (isPermissionError_script e \<longleftrightarrow>
      (\<exists>sig \<in> set permissionSignals. containsCI (message e @ '' '' @ details e) sig)) \<and>
   ((\<exists>sig \<in> set permissionSignals. containsCI (message e) sig) \<longrightarrow>
      isPermissionError_script e)"
proof -
  have page: "isPermissionError m \<longleftrightarrow> (\<exists>sig \<in> set permissionSignals_page. containsCI m sig)"
    by (simp add: isPermissionError_iff permissionSignals_page_def)
  have auth: "isNotAuthenticatedError m \<longleftrightarrow> containsCI m ''not authenticated''"
    by (simp add: isNotAuthenticatedError_def includes_lower_iff_containsCI)
  have script: "isPermissionError_script e \<longleftrightarrow>
      (\<exists>sig \<in> set permissionSignals. containsCI (message e @ '' '' @ details e) sig)"
    by (simp add: isPermissionError_script_iff permissionSignals_def
        permissionSignals_page_def)
  have msg: "(\<exists>sig \<in> set permissionSignals. containsCI (message e) sig) \<longrightarrow>
      isPermissionError_script e"
    unfolding script using containsCI_message by blast
  from page auth script msg show ?thesis by blast
qed

theorem C7_isPermissionError_signals_witness:
  "isPermissionError ''new row violates Row-Level Security policy'' \<and>
   (\<exists>sig \<in> set permissionSignals_page.
      containsCI ''new row violates Row-Level Security policy'' sig) \<and>
   (\<exists>sig \<in> set permissionSignals.
      containsCI (message \<lparr>message = ''Not Authenticated'', details = ''''\<rparr>) sig) \<and>
   isPermissionError_script \<lparr>message = ''Not Authenticated'', details = ''''\<rparr>"
proof -
  have p: "isPermissionError ''new row violates Row-Level Security policy''"
    by code_simp
  have s: "isPermissionError_script \<lparr>message = ''Not Authenticated'', details = ''''\<rparr>"
    by code_simp
  have "str_includes (toLowerCase ''Not Authenticated'') ''not authenticated''"
    by code_simp
  then have c: "containsCI (message \<lparr>message = ''Not Authenticated'', details = ''''\<rparr>)
      ''not authenticated''"
    by (simp add: includes_lower_iff_containsCI)
  have "''not authenticated'' \<in> set permissionSignals"
    by (simp add: permissionSignals_def)
  with c have ex: "\<exists>sig \<in> set permissionSignals.
      containsCI (message \<lparr>message = ''Not Authenticated'', details = ''''\<rparr>) sig"
    by blast
  from p s ex
    C7_isPermissionError_signals
      [of "''new row violates Row-Level Security policy''"
          "\<lparr>message = ''Not Authenticated'', details = ''''\<rparr>"]
  show ?thesis by blast
qed

section \<open>C9: the exhaustion branch and small payloads\<close>

text \<open>
  C9 at a payload of four keys. The store answers every insert with a missing-column
  message that names \<open>constructor\<close>. The row has no such key, but \<open>'constructor' in working\<close>
  holds through \<open>Object.prototype\<close>; \<open>delete\<close> removes nothing, and the loop continues.
  All eight attempts carry the whole row, and the call returns the synthesized failure.
\<close>

theorem C9_inherited_name_exhausts:
  "length participantRow = 4 \<and>
   \<not> hasOwn ''constructor'' participantRow \<and>
   js_in ''constructor'' participantRow \<and>
   map fst (added [] (insertWithColumnFallback inheritedName ''radar_participants''
       participantRow None [])) =
     replicate 8 (Insert ''radar_participants'' participantRow None) \<and>
   fst (insertWithColumnFallback inheritedName ''radar_participants'' participantRow None []) =
     \<lparr>res_data = Null,
      res_error = Some \<lparr>message = ''Gagal insert ke radar_participants setelah beberapa percobaan'',
                        details = []\<rparr>,
      duplicate = False\<rparr>"
  by code_simp

section \<open>C4: the status substitution\<close>

lemma js_get_js_delete:
  "js_get (js_delete c w) k = (if k = c then Undefined else js_get w k)"
  by (induction w) (auto simp: js_get_def js_delete_def)

lemma js_get_js_set_same: "js_get (js_set k v w) k = v"
  by (induction w) (auto simp: js_get_def)

lemma substitutionCount_not_archived:
  "a \<noteq> Str ''ARCHIVED'' \<Longrightarrow> substitutionCount (a # b # rest) = substitutionCount (b # rest)"
  by simp

lemma substitutionCount_snoc: "substitutionCount xs \<le> substitutionCount (xs @ [x])"
  by (induction xs rule: substitutionCount.induct) auto

text \<open>
  Along a run whose body never turns a status other than \<open>ARCHIVED\<close> into \<open>ARCHIVED\<close>, the
  substitution happens at most once, and only from a working copy that is \<open>ARCHIVED\<close>.
\<close>

lemma chain_substitutions:
  assumes "chain issue body w ext w'"
    and rec: "\<And>w. requestBody (issue w) = w"
    and keep: "\<And>w result w1. body w result = Continue w1 \<Longrightarrow>
        js_get w ''status'' \<noteq> Str ''ARCHIVED'' \<Longrightarrow> js_get w1 ''status'' \<noteq> Str ''ARCHIVED''"
  shows "substitutionCount (map statusOf ext @ [js_get w' ''status''])
        \<le> (if js_get w ''status'' = Str ''ARCHIVED'' then 1 else 0) \<and>
     hd (map statusOf ext @ [js_get w' ''status'']) = js_get w ''status''"
  using assms(1)
proof (induction rule: chain.induct)
  case (chain_Nil w)
  then show ?case by simp
next
  case (chain_Cons w result w1 ext w')
  let ?tail = "map statusOf ext @ [js_get w' ''status'']"
  from chain_Cons.IH have
    ih: "substitutionCount ?tail \<le> (if js_get w1 ''status'' = Str ''ARCHIVED'' then 1 else 0)"
    and h: "hd ?tail = js_get w1 ''status''" by simp_all
  obtain b rest where tail: "?tail = b # rest" by (cases ?tail) auto
  with h have b: "b = js_get w1 ''status''" by simp
  have st: "statusOf (issue w, result) = js_get w ''status''"
    by (simp add: statusOf_def rec)
  have list: "map statusOf ((issue w, result) # ext) @ [js_get w' ''status'']
      = js_get w ''status'' # b # rest"
    using tail st by simp
  have "substitutionCount (js_get w ''status'' # b # rest)
      \<le> (if js_get w ''status'' = Str ''ARCHIVED'' then 1 else 0)"
  proof (cases "js_get w ''status'' = Str ''ARCHIVED''")
    case True
    show ?thesis
    proof (cases "b = Str ''FINISHED''")
      case True
      with b have "js_get w1 ''status'' \<noteq> Str ''ARCHIVED''" by auto
      with ih tail have "substitutionCount (b # rest) = 0" by simp
      with \<open>js_get w ''status'' = Str ''ARCHIVED''\<close> show ?thesis by simp
    next
      case False
      with ih tail True show ?thesis by (simp split: if_splits)
    qed
  next
    case False
    from keep [OF chain_Cons.hyps(1) False] ih tail
    have "substitutionCount (b # rest) = 0" by simp
    with False show ?thesis by simp
  qed
  then show ?case unfolding list by simp
qed

lemma retryLoop_substitutes_once:
  assumes rec: "\<And>w. requestBody (issue w) = w"
    and keep: "\<And>w result w1. body w result = Continue w1 \<Longrightarrow>
        js_get w ''status'' \<noteq> Str ''ARCHIVED'' \<Longrightarrow> js_get w1 ''status'' \<noteq> Str ''ARCHIVED''"
  shows "substitutionCount
      (map statusOf (added tr (retryLoop bound issue body exhausted be attempt working tr)))
      \<le> 1"
proof (cases rule: retryLoop_cases [of bound issue body exhausted be attempt working tr])
  case (returned pre wl result)
  have "statusOf (issue wl, result) = js_get wl ''status''"
    by (simp add: statusOf_def rec)
  then have "map statusOf (pre @ [(issue wl, result)]) = map statusOf pre @ [js_get wl ''status'']"
    by simp
  moreover have "substitutionCount (map statusOf pre @ [js_get wl ''status''])
        \<le> (if js_get working ''status'' = Str ''ARCHIVED'' then 1 else 0) \<and>
      hd (map statusOf pre @ [js_get wl ''status'']) = js_get working ''status''"
    by (rule chain_substitutions [OF returned(3)]) (use rec keep in blast)+
  then have "substitutionCount (map statusOf pre @ [js_get wl ''status'']) \<le> 1"
    by (simp split: if_splits)
  ultimately show ?thesis by (simp add: returned(2))
next
  case (ran_out ext w')
  have "substitutionCount (map statusOf ext @ [js_get w' ''status''])
        \<le> (if js_get working ''status'' = Str ''ARCHIVED'' then 1 else 0) \<and>
      hd (map statusOf ext @ [js_get w' ''status'']) = js_get working ''status''"
    by (rule chain_substitutions [OF ran_out(3)]) (use rec keep in blast)+
  then have "substitutionCount (map statusOf ext @ [js_get w' ''status'']) \<le> 1"
    by (simp split: if_splits)
  with substitutionCount_snoc [of "map statusOf ext" "js_get w' ''status''"]
  show ?thesis by (simp add: ran_out(2))
qed

lemma checkOutBody_keep:
  assumes "checkOutBody w result = Continue w1"
    and "js_get w ''status'' \<noteq> Str ''ARCHIVED''"
  shows "js_get w1 ''status'' \<noteq> Str ''ARCHIVED''"
  using assms
  by (auto simp: checkOutBody_def js_get_js_delete split: option.splits if_splits)

lemma archiveBody_keep:
  assumes "archiveBody w result = Continue w1"
    and "js_get w ''status'' \<noteq> Str ''ARCHIVED''"
  shows "js_get w1 ''status'' \<noteq> Str ''ARCHIVED''"
  using assms
  by (auto simp: archiveBody_def js_get_js_delete split: option.splits if_splits)

lemma checkOutBody_substitute:
  assumes "statusOf (Update t w f, result) = Str ''ARCHIVED''"
    and "enumRejected (Update t w f, result)"
  shows "checkOutBody w result = Continue (js_set ''status'' (Str ''FINISHED'') w)"
  using assms
  by (auto simp: checkOutBody_def statusOf_def enumRejected_def requestBody_def
      split: option.splits)

lemma archiveBody_substitute:
  assumes "statusOf (Update t w f, result) = Str ''ARCHIVED''"
    and "enumRejected_script (Update t w f, result)"
  shows "archiveBody w result = Continue (js_set ''status'' (Str ''FINISHED'') w)"
  using assms
  by (auto simp: archiveBody_def statusOf_def enumRejected_script_def requestBody_def
      split: option.splits)

lemma checkOutBody_reject:
  assumes "statusOf (Update t w f, result) \<noteq> Str ''ARCHIVED''"
    and "rejectedForGood (Update t w f, result)"
    and "error result = Some e"
  shows "checkOutBody w result =
     Return (Inl (if isPermissionError (message e)
                  then ''Tidak punya izin check-out pada data check-in ini.''
                  else message e))"
  using assms
  by (auto simp: checkOutBody_def statusOf_def rejectedForGood_def requestBody_def
      split: option.splits)

lemma archiveBody_reject:
  assumes "statusOf (Update t w f, result) \<noteq> Str ''ARCHIVED''"
    and "rejectedForGood_script (Update t w f, result)"
    and "error result = Some e"
  shows "archiveBody w result = Return (scriptFailure None e)"
  using assms
  by (auto simp: archiveBody_def statusOf_def rejectedForGood_script_def requestBody_def
      split: option.splits)

lemma update_loop_request:
  assumes "i < length (added tr (retryLoop bound (\<lambda>w. Update t w F) body exhausted be 0
      payload tr))"
  shows "added tr (retryLoop bound (\<lambda>w. Update t w F) body exhausted be 0 payload tr) ! i =
     (Update t
        (requestBody (fst (added tr (retryLoop bound (\<lambda>w. Update t w F) body exhausted be 0
           payload tr) ! i))) F,
      snd (added tr (retryLoop bound (\<lambda>w. Update t w F) body exhausted be 0 payload tr) ! i))"
proof -
  let ?E = "added tr (retryLoop bound (\<lambda>w. Update t w F) body exhausted be 0 payload tr)"
  from assms have "?E ! i \<in> set ?E" by simp
  from added_issue [OF this] obtain w where "fst (?E ! i) = Update t w F" by blast
  then show ?thesis by (simp add: prod_eq_iff requestBody_def)
qed

lemma update_loop_continues:
  fixes t F body exhausted be payload tr bound
  defines "E \<equiv> added tr (retryLoop bound (\<lambda>w. Update t w F) body exhausted be 0 payload tr)"
  assumes sub: "\<And>w result. P (Update t w F, result) \<Longrightarrow> body w result = Continue (f w)"
    and i: "i < length E" and room: "Suc i < bound" and p: "P (E ! i)"
  shows "Suc i < length E \<and> requestBody (fst (E ! Suc i)) = f (requestBody (fst (E ! i)))"
proof -
  let ?w = "requestBody (fst (E ! i))"
  have x: "E ! i = (Update t ?w F, snd (E ! i))"
    using update_loop_request [OF i [unfolded E_def]] by (simp add: E_def)
  from p have "P (Update t ?w F, snd (E ! i))" by (subst (asm) x)
  from sub [OF this] have cont: "body ?w (snd (E ! i)) = Continue (f ?w)" .
  have rec: "\<And>w. requestBody (Update t w F) = w" by (simp add: requestBody_def)
  from retryLoop_continues_here [of requestBody "\<lambda>w. Update t w F", OF rec
      i [unfolded E_def] cont [unfolded E_def] room]
  show ?thesis by (simp add: E_def requestBody_def)
qed

lemma update_loop_returns:
  fixes t F body exhausted be payload tr bound
  defines "L \<equiv> retryLoop bound (\<lambda>w. Update t w F) body exhausted be 0 payload tr"
  assumes rej: "\<And>w result. P (Update t w F, result) \<Longrightarrow> body w result = Return r"
    and i: "i < length (added tr L)" and p: "P (added tr L ! i)"
  shows "Suc i = length (added tr L) \<and> fst L = r"
proof -
  let ?w = "requestBody (fst (added tr L ! i))"
  have x: "added tr L ! i = (Update t ?w F, snd (added tr L ! i))"
    using update_loop_request [OF i [unfolded L_def]] by (simp add: L_def)
  from p have "P (Update t ?w F, snd (added tr L ! i))" by (subst (asm) x)
  from rej [OF this] have ret: "body ?w (snd (added tr L ! i)) = Return r" .
  have rec: "\<And>w. requestBody (Update t w F) = w" by (simp add: requestBody_def)
  from retryLoop_returns_here [of requestBody "\<lambda>w. Update t w F", OF rec
      i [unfolded L_def] ret [unfolded L_def]]
  show ?thesis by (simp add: L_def)
qed

text \<open>
  C4, as stated: "if the server rejects both values the loop fails after the attempt
  ceiling". The store rejects \<open>ARCHIVED\<close> and \<open>FINISHED\<close> with an enum violation. Both loops
  stop on the second answer, with the server's error: \<open>setCheckOutNow\<close> throws it (and not
  the message of the exhausted loop), \<open>archiveCheckInsByUser\<close> returns it.
\<close>

theorem C4_counterexample:
  "map statusOf (added [] (setCheckOutNow bothRejected ''u1'' ''k1'' ''mass_checkins''
       ''2026-02-19T10:00:00.000Z'' [])) = [Str ''ARCHIVED'', Str ''FINISHED''] \<and>
   map snd (added [] (setCheckOutNow bothRejected ''u1'' ''k1''
       ''mass_checkins'' ''2026-02-19T10:00:00.000Z'' [])) =
     [\<lparr>data = Null, error = Some (enumError (Str ''ARCHIVED''))\<rparr>,
      \<lparr>data = Null, error = Some (enumError (Str ''FINISHED''))\<rparr>] \<and>
   fst (setCheckOutNow bothRejected ''u1'' ''k1'' ''mass_checkins''
       ''2026-02-19T10:00:00.000Z'' []) =
     Inl (message (enumError (Str ''FINISHED''))) \<and>
   fst (setCheckOutNow bothRejected ''u1'' ''k1'' ''mass_checkins''
       ''2026-02-19T10:00:00.000Z'' []) \<noteq> Inl ''Gagal check-out sekarang.'' \<and>
   map statusOf (added [] (archiveCheckInsByUser bothRejected ''mass_checkins'' ''u1''
       ''2026-02-19T10:00:00.000Z'' [])) = [Str ''ARCHIVED'', Str ''FINISHED''] \<and>
   map snd (added [] (archiveCheckInsByUser bothRejected
       ''mass_checkins'' ''u1'' ''2026-02-19T10:00:00.000Z'' [])) =
     [\<lparr>data = Null, error = Some (enumError (Str ''ARCHIVED''))\<rparr>,
      \<lparr>data = Null, error = Some (enumError (Str ''FINISHED''))\<rparr>] \<and>
   isEnumConstraintError (enumError (Str ''ARCHIVED'')) \<and>
   isEnumConstraintError (enumError (Str ''FINISHED'')) \<and>
   fst (archiveCheckInsByUser bothRejected ''mass_checkins'' ''u1''
       ''2026-02-19T10:00:00.000Z'' []) =
     scriptFailure None (enumError (Str ''FINISHED''))"
  by code_simp

text \<open>
  C4, amended. On the check-out path (\<open>setCheckOutNow\<close>, ceiling 8) and the archive path
  (\<open>archiveCheckInsByUser\<close>, ceiling 10): when a request with status \<open>ARCHIVED\<close> is answered
  with an error on which the loop's enum test holds (and which it does not handle first),
  the next request is the same row with status \<open>FINISHED\<close>; over a whole call this
  substitution happens at most once. When a request whose status is no longer \<open>ARCHIVED\<close>
  is rejected with an error that names no column to strip, the loop stops on that answer
  with the server's error (thrown by \<open>setCheckOutNow\<close>, returned by
  \<open>archiveCheckInsByUser\<close>), not at the ceiling. No call makes more attempts than its
  ceiling.
\<close>

theorem C4_status_substitution:
  fixes be :: backend and userId activeId activeTable nowIso table :: string
    and tr :: "exchange list" and i j :: nat and e :: pg_error
  defines "E \<equiv> added tr (setCheckOutNow be userId activeId activeTable nowIso tr)"
    and "A \<equiv> added tr (archiveCheckInsByUser be table userId nowIso tr)"
  shows
   "length E \<le> 8 \<and> substitutionCount (map statusOf E) \<le> 1 \<and>
    (i < length E \<and> Suc i < 8 \<and> statusOf (E ! i) = Str ''ARCHIVED'' \<and> enumRejected (E ! i) \<longrightarrow>
       Suc i < length E \<and>
       requestBody (fst (E ! Suc i)) =
         js_set ''status'' (Str ''FINISHED'') (requestBody (fst (E ! i)))) \<and>
    (j < length E \<and> statusOf (E ! j) \<noteq> Str ''ARCHIVED'' \<and> rejectedForGood (E ! j) \<and>
     error (snd (E ! j)) = Some e \<longrightarrow>
       Suc j = length E \<and>
       fst (setCheckOutNow be userId activeId activeTable nowIso tr) =
         Inl (if isPermissionError (message e)
              then ''Tidak punya izin check-out pada data check-in ini.''
              else message e)) \<and>
    length A \<le> 10 \<and> substitutionCount (map statusOf A) \<le> 1 \<and>
    (i < length A \<and> Suc i < 10 \<and> statusOf (A ! i) = Str ''ARCHIVED'' \<and>
     enumRejected_script (A ! i) \<longrightarrow>
       Suc i < length A \<and>
       requestBody (fst (A ! Suc i)) =
         js_set ''status'' (Str ''FINISHED'') (requestBody (fst (A ! i)))) \<and>
    (j < length A \<and> statusOf (A ! j) \<noteq> Str ''ARCHIVED'' \<and> rejectedForGood_script (A ! j) \<and>
     error (snd (A ! j)) = Some e \<longrightarrow>
       Suc j = length A \<and>
       fst (archiveCheckInsByUser be table userId nowIso tr) =
         \<lparr>ok = False, sr_data = Undefined, sr_table = None, missing = False,
          permission = False, skipped = False, sr_error = Some e\<rparr>)"
proof -
  let ?F = "[(''id'', Str activeId), (''user_id'', Str userId)]"
  let ?G = "[(''user_id'', Str userId), (''status'', Str ''ACTIVE'')]"
  let ?X = "scriptFailure None
      \<lparr>message = ''Gagal mengarsipkan '' @ table @ ''.'', details = []\<rparr>"
  have rec: "\<And>t F w. requestBody (Update t w F) = w" by (simp add: requestBody_def)
  have E: "E = added tr (retryLoop 8 (\<lambda>w. Update activeTable w ?F) checkOutBody
      (Inl ''Gagal check-out sekarang.'') be 0 (archivePayload nowIso) tr)"
    by (simp add: E_def setCheckOutNow_def)
  have A: "A = added tr (retryLoop 10 (\<lambda>w. Update table w ?G) archiveBody ?X be 0
      (archivePayload nowIso) tr)"
    by (simp add: A_def archiveCheckInsByUser_def)
  have e1: "length E \<le> 8"
    unfolding E using added_length [of tr 8 _ checkOutBody _ be 0] by simp
  have e2: "substitutionCount (map statusOf E) \<le> 1"
    unfolding E by (rule retryLoop_substitutes_once [OF rec checkOutBody_keep])
  have e3: "Suc i < length E \<and>
       requestBody (fst (E ! Suc i)) =
         js_set ''status'' (Str ''FINISHED'') (requestBody (fst (E ! i)))"
    if h: "i < length E \<and> Suc i < 8 \<and> statusOf (E ! i) = Str ''ARCHIVED'' \<and>
      enumRejected (E ! i)"
  proof -
    have sub: "checkOutBody w result = Continue (js_set ''status'' (Str ''FINISHED'') w)"
      if "statusOf (Update activeTable w ?F, result) = Str ''ARCHIVED'' \<and>
        enumRejected (Update activeTable w ?F, result)" for w result
      using that checkOutBody_substitute [of activeTable w ?F result] by simp
    from h have i: "i < length E" and room: "Suc i < 8"
      and p: "statusOf (E ! i) = Str ''ARCHIVED'' \<and> enumRejected (E ! i)" by simp_all
    show ?thesis
      using update_loop_continues
        [where P = "\<lambda>x. statusOf x = Str ''ARCHIVED'' \<and> enumRejected x"
           and f = "js_set ''status'' (Str ''FINISHED'')" and body = checkOutBody,
         OF sub i [unfolded E] room p [unfolded E]]
      unfolding E .
  qed
  have e4: "Suc j = length E \<and>
       fst (setCheckOutNow be userId activeId activeTable nowIso tr) =
         Inl (if isPermissionError (message e)
              then ''Tidak punya izin check-out pada data check-in ini.''
              else message e)"
    if h: "j < length E \<and> statusOf (E ! j) \<noteq> Str ''ARCHIVED'' \<and> rejectedForGood (E ! j) \<and>
     error (snd (E ! j)) = Some e"
  proof -
    have rej: "checkOutBody w result =
        Return (Inl (if isPermissionError (message e)
              then ''Tidak punya izin check-out pada data check-in ini.''
              else message e))"
      if "statusOf (Update activeTable w ?F, result) \<noteq> Str ''ARCHIVED'' \<and>
        rejectedForGood (Update activeTable w ?F, result) \<and>
        error (snd (Update activeTable w ?F, result)) = Some e" for w result
      using that checkOutBody_reject [of activeTable w ?F result e] by simp
    from h have j: "j < length E"
      and p: "statusOf (E ! j) \<noteq> Str ''ARCHIVED'' \<and> rejectedForGood (E ! j) \<and>
        error (snd (E ! j)) = Some e" by simp_all
    show ?thesis
      using update_loop_returns
        [where P = "\<lambda>x. statusOf x \<noteq> Str ''ARCHIVED'' \<and> rejectedForGood x \<and>
           error (snd x) = Some e" and body = checkOutBody,
         OF rej j [unfolded E] p [unfolded E]]
      unfolding E setCheckOutNow_def .
  qed
  have a1: "length A \<le> 10"
    unfolding A using added_length [of tr 10 _ archiveBody _ be 0] by simp
  have a2: "substitutionCount (map statusOf A) \<le> 1"
    unfolding A by (rule retryLoop_substitutes_once [OF rec archiveBody_keep])
  have a3: "Suc i < length A \<and>
       requestBody (fst (A ! Suc i)) =
         js_set ''status'' (Str ''FINISHED'') (requestBody (fst (A ! i)))"
    if h: "i < length A \<and> Suc i < 10 \<and> statusOf (A ! i) = Str ''ARCHIVED'' \<and>
     enumRejected_script (A ! i)"
  proof -
    have sub: "archiveBody w result = Continue (js_set ''status'' (Str ''FINISHED'') w)"
      if "statusOf (Update table w ?G, result) = Str ''ARCHIVED'' \<and>
        enumRejected_script (Update table w ?G, result)" for w result
      using that archiveBody_substitute [of table w ?G result] by simp
    from h have i: "i < length A" and room: "Suc i < 10"
      and p: "statusOf (A ! i) = Str ''ARCHIVED'' \<and> enumRejected_script (A ! i)"
      by simp_all
    show ?thesis
      using update_loop_continues
        [where P = "\<lambda>x. statusOf x = Str ''ARCHIVED'' \<and> enumRejected_script x"
           and f = "js_set ''status'' (Str ''FINISHED'')" and body = archiveBody,
         OF sub i [unfolded A] room p [unfolded A]]
      unfolding A .
  qed
  have a4: "Suc j = length A \<and>
       fst (archiveCheckInsByUser be table userId nowIso tr) =
         \<lparr>ok = False, sr_data = Undefined, sr_table = None, missing = False,
          permission = False, skipped = False, sr_error = Some e\<rparr>"
    if h: "j < length A \<and> statusOf (A ! j) \<noteq> Str ''ARCHIVED'' \<and>
     rejectedForGood_script (A ! j) \<and> error (snd (A ! j)) = Some e"
  proof -
    have rej: "archiveBody w result = Return (scriptFailure None e)"
      if "statusOf (Update table w ?G, result) \<noteq> Str ''ARCHIVED'' \<and>
        rejectedForGood_script (Update table w ?G, result) \<and>
        error (snd (Update table w ?G, result)) = Some e" for w result
      using that archiveBody_reject [of table w ?G result e] by simp
    from h have j: "j < length A"
      and p: "statusOf (A ! j) \<noteq> Str ''ARCHIVED'' \<and> rejectedForGood_script (A ! j) \<and>
        error (snd (A ! j)) = Some e" by simp_all
    have "Suc j = length A \<and>
        fst (archiveCheckInsByUser be table userId nowIso tr) = scriptFailure None e"
      using update_loop_returns
        [where P = "\<lambda>x. statusOf x \<noteq> Str ''ARCHIVED'' \<and> rejectedForGood_script x \<and>
           error (snd x) = Some e" and body = archiveBody,
         OF rej j [unfolded A] p [unfolded A]]
      unfolding A archiveCheckInsByUser_def .
    then show ?thesis by (simp add: scriptFailure_def)
  qed
  from e1 e2 e3 e4 a1 a2 a3 a4 show ?thesis by blast
qed

theorem C4_status_substitution_witness:
  "(0 < length (added [] (setCheckOutNow bothRejected ''u1'' ''k1'' ''mass_checkins''
        ''2026-02-19T10:00:00.000Z'' [])) \<and> Suc 0 < 8 \<and>
    statusOf (added [] (setCheckOutNow bothRejected ''u1'' ''k1'' ''mass_checkins''
        ''2026-02-19T10:00:00.000Z'' []) ! 0) = Str ''ARCHIVED'' \<and>
    enumRejected (added [] (setCheckOutNow bothRejected ''u1'' ''k1'' ''mass_checkins''
        ''2026-02-19T10:00:00.000Z'' []) ! 0)) \<and>
   (Suc 0 < length (added [] (setCheckOutNow bothRejected ''u1'' ''k1'' ''mass_checkins''
        ''2026-02-19T10:00:00.000Z'' [])) \<and>
    statusOf (added [] (setCheckOutNow bothRejected ''u1'' ''k1'' ''mass_checkins''
        ''2026-02-19T10:00:00.000Z'' []) ! Suc 0) \<noteq> Str ''ARCHIVED'' \<and>
    rejectedForGood (added [] (setCheckOutNow bothRejected ''u1'' ''k1'' ''mass_checkins''
        ''2026-02-19T10:00:00.000Z'' []) ! Suc 0) \<and>
    error (snd (added [] (setCheckOutNow bothRejected ''u1'' ''k1'' ''mass_checkins''
        ''2026-02-19T10:00:00.000Z'' []) ! Suc 0)) = Some (enumError (Str ''FINISHED''))) \<and>
   (0 < length (added [] (archiveCheckInsByUser bothRejected ''mass_checkins'' ''u1''
        ''2026-02-19T10:00:00.000Z'' [])) \<and> Suc 0 < 10 \<and>
    statusOf (added [] (archiveCheckInsByUser bothRejected ''mass_checkins'' ''u1''
        ''2026-02-19T10:00:00.000Z'' []) ! 0) = Str ''ARCHIVED'' \<and>
    enumRejected_script (added [] (archiveCheckInsByUser bothRejected ''mass_checkins'' ''u1''
        ''2026-02-19T10:00:00.000Z'' []) ! 0)) \<and>
   (Suc 0 < length (added [] (archiveCheckInsByUser bothRejected ''mass_checkins'' ''u1''
        ''2026-02-19T10:00:00.000Z'' [])) \<and>
    statusOf (added [] (archiveCheckInsByUser bothRejected ''mass_checkins'' ''u1''
        ''2026-02-19T10:00:00.000Z'' []) ! Suc 0) \<noteq> Str ''ARCHIVED'' \<and>
    rejectedForGood_script (added [] (archiveCheckInsByUser bothRejected ''mass_checkins''
        ''u1'' ''2026-02-19T10:00:00.000Z'' []) ! Suc 0) \<and>
    error (snd (added [] (archiveCheckInsByUser bothRejected ''mass_checkins'' ''u1''
        ''2026-02-19T10:00:00.000Z'' []) ! Suc 0)) = Some (enumError (Str ''FINISHED''))) \<and>
   requestBody (fst (added [] (setCheckOutNow bothRejected ''u1'' ''k1'' ''mass_checkins''
        ''2026-02-19T10:00:00.000Z'' []) ! Suc 0)) =
     js_set ''status'' (Str ''FINISHED'')
       (requestBody (fst (added [] (setCheckOutNow bothRejected ''u1'' ''k1''
          ''mass_checkins'' ''2026-02-19T10:00:00.000Z'' []) ! 0))) \<and>
   Suc (Suc 0) = length (added [] (setCheckOutNow bothRejected ''u1'' ''k1''
        ''mass_checkins'' ''2026-02-19T10:00:00.000Z'' [])) \<and>
   requestBody (fst (added [] (archiveCheckInsByUser bothRejected ''mass_checkins'' ''u1''
        ''2026-02-19T10:00:00.000Z'' []) ! Suc 0)) =
     js_set ''status'' (Str ''FINISHED'')
       (requestBody (fst (added [] (archiveCheckInsByUser bothRejected ''mass_checkins''
          ''u1'' ''2026-02-19T10:00:00.000Z'' []) ! 0))) \<and>
   Suc (Suc 0) = length (added [] (archiveCheckInsByUser bothRejected ''mass_checkins''
        ''u1'' ''2026-02-19T10:00:00.000Z'' []))"
proof -
  have h3: "0 < length (added [] (setCheckOutNow bothRejected ''u1'' ''k1'' ''mass_checkins''
        ''2026-02-19T10:00:00.000Z'' [])) \<and> Suc 0 < 8 \<and>
    statusOf (added [] (setCheckOutNow bothRejected ''u1'' ''k1'' ''mass_checkins''
        ''2026-02-19T10:00:00.000Z'' []) ! 0) = Str ''ARCHIVED'' \<and>
    enumRejected (added [] (setCheckOutNow bothRejected ''u1'' ''k1'' ''mass_checkins''
        ''2026-02-19T10:00:00.000Z'' []) ! 0)"
    by code_simp
  have h4: "Suc 0 < length (added [] (setCheckOutNow bothRejected ''u1'' ''k1''
        ''mass_checkins'' ''2026-02-19T10:00:00.000Z'' [])) \<and>
    statusOf (added [] (setCheckOutNow bothRejected ''u1'' ''k1'' ''mass_checkins''
        ''2026-02-19T10:00:00.000Z'' []) ! Suc 0) \<noteq> Str ''ARCHIVED'' \<and>
    rejectedForGood (added [] (setCheckOutNow bothRejected ''u1'' ''k1'' ''mass_checkins''
        ''2026-02-19T10:00:00.000Z'' []) ! Suc 0) \<and>
    error (snd (added [] (setCheckOutNow bothRejected ''u1'' ''k1'' ''mass_checkins''
        ''2026-02-19T10:00:00.000Z'' []) ! Suc 0)) = Some (enumError (Str ''FINISHED''))"
    by code_simp
  have g3: "0 < length (added [] (archiveCheckInsByUser bothRejected ''mass_checkins'' ''u1''
        ''2026-02-19T10:00:00.000Z'' [])) \<and> Suc 0 < 10 \<and>
    statusOf (added [] (archiveCheckInsByUser bothRejected ''mass_checkins'' ''u1''
        ''2026-02-19T10:00:00.000Z'' []) ! 0) = Str ''ARCHIVED'' \<and>
    enumRejected_script (added [] (archiveCheckInsByUser bothRejected ''mass_checkins'' ''u1''
        ''2026-02-19T10:00:00.000Z'' []) ! 0)"
    by code_simp
  have g4: "Suc 0 < length (added [] (archiveCheckInsByUser bothRejected ''mass_checkins''
        ''u1'' ''2026-02-19T10:00:00.000Z'' [])) \<and>
    statusOf (added [] (archiveCheckInsByUser bothRejected ''mass_checkins'' ''u1''
        ''2026-02-19T10:00:00.000Z'' []) ! Suc 0) \<noteq> Str ''ARCHIVED'' \<and>
    rejectedForGood_script (added [] (archiveCheckInsByUser bothRejected ''mass_checkins''
        ''u1'' ''2026-02-19T10:00:00.000Z'' []) ! Suc 0) \<and>
    error (snd (added [] (archiveCheckInsByUser bothRejected ''mass_checkins'' ''u1''
        ''2026-02-19T10:00:00.000Z'' []) ! Suc 0)) = Some (enumError (Str ''FINISHED''))"
    by code_simp
  note inst = C4_status_substitution
    [where be = bothRejected and userId = "''u1''" and activeId = "''k1''"
       and activeTable = "''mass_checkins''" and table = "''mass_checkins''"
       and nowIso = "''2026-02-19T10:00:00.000Z''" and tr = "[]" and i = 0 and j = "Suc 0"
       and e = "enumError (Str ''FINISHED'')"]
  note r2 = conjunct2 [OF conjunct2 [OF inst]]
  note k3 = mp [OF conjunct1 [OF r2] h3]
  note k4 = mp [OF conjunct1 [OF conjunct2 [OF r2]] h4]
  note r6 = conjunct2 [OF conjunct2 [OF conjunct2 [OF conjunct2 [OF r2]]]]
  note l3 = mp [OF conjunct1 [OF r6] g3]
  note l4 = mp [OF conjunct2 [OF r6] g4]
  show ?thesis
    using h3 h4 g3 g4 conjunct2 [OF k3] conjunct1 [OF k4] conjunct2 [OF l3] conjunct1 [OF l4]
    by (intro conjI) (simp_all only: simp_thms)
qed

section \<open>C6: one generation per created event\<close>

lemma snd_insertWithColumnFallback:
  "snd (insertWithColumnFallback be table payload select tr) =
     tr @ added tr (insertWithColumnFallback be table payload select tr)"
  unfolding insertWithColumnFallback_def by (rule snd_retryLoop)

lemma added_nonempty:
  assumes "attempt < bound"
  shows "added tr (retryLoop bound issue body exhausted be attempt working tr) \<noteq> []"
  using assms
  by (cases rule: retryLoop_cases [of bound issue body exhausted be attempt working tr]) auto

lemma insert_tables:
  "set (map (\<lambda>x. requestTable (fst x))
          (added tr (insertWithColumnFallback be table payload select tr))) = {table}"
proof -
  let ?E = "added tr (insertWithColumnFallback be table payload select tr)"
  have ne: "?E \<noteq> []"
    unfolding insertWithColumnFallback_def by (rule added_nonempty) simp
  have "requestTable (fst x) = table" if "x \<in> set ?E" for x
  proof -
    from that added_issue [of x tr 8 "insertRequest table select" insertBody
        "insertExhausted table" be 0 payload]
    obtain w where "fst x = insertRequest table select w"
      by (auto simp: insertWithColumnFallback_def)
    then show ?thesis by (simp add: insertRequest_def requestTable_def)
  qed
  with ne show ?thesis by (cases ?E) auto
qed

lemma added_two:
  assumes "tr1 = tr @ a" and "tr2 = tr1 @ b"
  shows "added tr (r, tr2) = a @ b"
  using assms by (simp add: added_def)

lemma added_three:
  assumes "tr1 = tr @ a" and "tr2 = tr1 @ b" and "tr3 = tr2 @ c"
  shows "added tr (r, tr3) = a @ b @ c"
  using assms by (simp add: added_def)

text \<open>The tables a call of \<open>createRadarEvent\<close> writes to, and what it returns, case by case.\<close>

lemma createRadarEvent_tables:
  fixes be plus90 params tr
  defines "L \<equiv> insertWithColumnFallback be ''radar_events'' (legacyPayload params)
      (Some ''id'') tr"
  defines "V \<equiv> \<lambda>endsAtIso. insertWithColumnFallback be ''radar_events_v2''
      (v2Payload params endsAtIso) (Some ''id'') (snd L)"
  defines "run \<equiv> createRadarEvent be plus90 params tr"
  defines "tables \<equiv> set (map (\<lambda>x. requestTable (fst x)) (added tr run))"
  shows "created (fst L) \<Longrightarrow>
      tables = {''radar_events'', ''radar_participants''} \<and> fst run = Inr (createdId (fst L)) \<and>
      Insert ''radar_participants'' (hostRow (createdId (fst L)) (cr_userId params)) None
        \<in> fst ` set (added tr run)"
    and "\<not> created (fst L) \<Longrightarrow> plus90 (cr_startsAtIso params) = None \<Longrightarrow>
      tables = {''radar_events''} \<and> fst run = Inl ''Invalid time value''"
    and "\<not> created (fst L) \<Longrightarrow> plus90 (cr_startsAtIso params) = Some endsAtIso \<Longrightarrow>
      created (fst (V endsAtIso)) \<Longrightarrow>
      tables = {''radar_events'', ''radar_events_v2'', ''radar_participants_v2''} \<and>
      fst run = Inr (createdId (fst (V endsAtIso))) \<and>
      Insert ''radar_participants_v2''
          (hostRow (createdId (fst (V endsAtIso))) (cr_userId params)) None
        \<in> fst ` set (added tr run)"
    and "\<not> created (fst L) \<Longrightarrow> plus90 (cr_startsAtIso params) = Some endsAtIso \<Longrightarrow>
      \<not> created (fst (V endsAtIso)) \<Longrightarrow>
      tables = {''radar_events'', ''radar_events_v2''} \<and> (\<exists>m. fst run = Inl m)"
proof -
  let ?P = "\<lambda>table r tr'. insertWithColumnFallback be table
      (hostRow (createdId r) (cr_userId params)) None tr'"
  have sL: "snd L = tr @ added tr L"
    unfolding L_def by (rule snd_insertWithColumnFallback)
  have tL: "set (map (\<lambda>x. requestTable (fst x)) (added tr L)) = {''radar_events''}"
    unfolding L_def by (rule insert_tables)
  have first: "Insert table row None \<in> fst ` set (added tr' (insertWithColumnFallback be table
      row None tr'))" for table row tr'
  proof (cases rule: retryLoop_cases [of 8 "insertRequest table None" insertBody
        "insertExhausted table" be 0 row tr'])
    case (returned pre wl result)
    show ?thesis
    proof (cases pre)
      case Nil
      with returned(3) have "wl = row" by (auto elim: chain.cases)
      with returned(2) Nil show ?thesis
        by (simp add: insertWithColumnFallback_def insertRequest_def)
    next
      case (Cons x xs)
      with returned(3) have "fst x = insertRequest table None row"
        by (auto elim: chain.cases)
      with returned(2) Cons show ?thesis
        by (simp add: insertWithColumnFallback_def insertRequest_def image_iff)
    qed
  next
    case (ran_out ext w')
    then have "ext \<noteq> []" by auto
    then obtain x xs where "ext = x # xs" by (cases ext) auto
    with ran_out(3) have "fst x = insertRequest table None row" "ext = x # xs"
      by (auto elim: chain.cases)
    with ran_out(2) show ?thesis
      by (auto simp: insertWithColumnFallback_def insertRequest_def image_iff)
  qed
  show "tables = {''radar_events'', ''radar_participants''} \<and>
      fst run = Inr (createdId (fst L)) \<and>
      Insert ''radar_participants'' (hostRow (createdId (fst L)) (cr_userId params)) None
        \<in> fst ` set (added tr run)"
    if c: "created (fst L)"
  proof -
    let ?H = "?P ''radar_participants'' (fst L) (snd L)"
    have run: "run = (Inr (createdId (fst L)), snd ?H)"
      using c by (simp add: run_def createRadarEvent_def L_def case_prod_unfold)
    have sH: "snd ?H = snd L @ added (snd L) ?H" by (rule snd_insertWithColumnFallback)
    have add: "added tr run = added tr L @ added (snd L) ?H"
      unfolding run by (rule added_two [OF sL sH])
    have tH: "set (map (\<lambda>x. requestTable (fst x)) (added (snd L) ?H)) = {''radar_participants''}"
      by (rule insert_tables)
    have "tables = {''radar_events''} \<union> {''radar_participants''}"
      unfolding tables_def add using tL tH by simp
    moreover have "Insert ''radar_participants'' (hostRow (createdId (fst L)) (cr_userId params))
        None \<in> fst ` set (added tr run)"
      unfolding add using first [of "''radar_participants''" _ "snd L"] by auto
    ultimately show ?thesis using run by auto
  qed
  show "tables = {''radar_events''} \<and> fst run = Inl ''Invalid time value''"
    if c: "\<not> created (fst L)" and p: "plus90 (cr_startsAtIso params) = None"
  proof -
    have run: "run = (Inl ''Invalid time value'', snd L)"
      using c p by (simp add: run_def createRadarEvent_def L_def case_prod_unfold)
    have "added tr run = added tr L" unfolding run by (simp add: added_def)
    then show ?thesis using tL run by (simp add: tables_def)
  qed
  have sV: "snd (V endsAtIso) = snd L @ added (snd L) (V endsAtIso)"
    unfolding V_def by (rule snd_insertWithColumnFallback)
  have tV: "set (map (\<lambda>x. requestTable (fst x)) (added (snd L) (V endsAtIso)))
      = {''radar_events_v2''}"
    unfolding V_def by (rule insert_tables)
  show "tables = {''radar_events'', ''radar_events_v2'', ''radar_participants_v2''} \<and>
      fst run = Inr (createdId (fst (V endsAtIso))) \<and>
      Insert ''radar_participants_v2''
          (hostRow (createdId (fst (V endsAtIso))) (cr_userId params)) None
        \<in> fst ` set (added tr run)"
    if c: "\<not> created (fst L)" and p: "plus90 (cr_startsAtIso params) = Some endsAtIso"
      and v: "created (fst (V endsAtIso))"
  proof -
    let ?H = "?P ''radar_participants_v2'' (fst (V endsAtIso)) (snd (V endsAtIso))"
    have run: "run = (Inr (createdId (fst (V endsAtIso))), snd ?H)"
      using c p v by (simp add: run_def createRadarEvent_def L_def V_def case_prod_unfold)
    have sH: "snd ?H = snd (V endsAtIso) @ added (snd (V endsAtIso)) ?H"
      by (rule snd_insertWithColumnFallback)
    have add: "added tr run =
        added tr L @ added (snd L) (V endsAtIso) @ added (snd (V endsAtIso)) ?H"
      unfolding run by (rule added_three [OF sL sV sH])
    have tH: "set (map (\<lambda>x. requestTable (fst x)) (added (snd (V endsAtIso)) ?H))
        = {''radar_participants_v2''}"
      by (rule insert_tables)
    have "tables = {''radar_events''} \<union> {''radar_events_v2''} \<union> {''radar_participants_v2''}"
      unfolding tables_def add using tL tV tH by (simp add: Un_assoc)
    moreover have "Insert ''radar_participants_v2''
          (hostRow (createdId (fst (V endsAtIso))) (cr_userId params)) None
        \<in> fst ` set (added tr run)"
      unfolding add using first [of "''radar_participants_v2''" _ "snd (V endsAtIso)"] by auto
    ultimately show ?thesis using run by auto
  qed
  show "tables = {''radar_events'', ''radar_events_v2''} \<and> (\<exists>m. fst run = Inl m)"
    if c: "\<not> created (fst L)" and p: "plus90 (cr_startsAtIso params) = Some endsAtIso"
      and v: "\<not> created (fst (V endsAtIso))"
  proof -
    have run: "\<exists>m. run = (Inl m, snd (V endsAtIso))"
      using c p v by (simp add: run_def createRadarEvent_def L_def V_def case_prod_unfold)
    then obtain m where run: "run = (Inl m, snd (V endsAtIso))" by blast
    have add: "added tr run = added tr L @ added (snd L) (V endsAtIso)"
      unfolding run by (rule added_two [OF sL sV])
    have "tables = {''radar_events''} \<union> {''radar_events_v2''}"
      unfolding tables_def add using tL tV by simp
    then show ?thesis using run by auto
  qed
qed

end
